theory Spec2Isabelle
  imports Main "HOL-Library.AList" "HOL-Library.Sublist"
begin

section \<open>Python values and JSON documents\<close>

text \<open>
  The session store of \<^verbatim>\<open>modules/session_manager.py\<close> keeps four tables in an SQLite
  file and moves every payload through \<^verbatim>\<open>json.dumps\<close> and \<^verbatim>\<open>json.loads\<close>.
  Payloads are Python values. The fragment modelled here has \<^verbatim>\<open>None\<close>, booleans,
  integers of any size, strings, lists, tuples, dictionaries whose keys are strings or
  integers, and one opaque value \<open>PObject\<close> that stands for everything the encoder
  refuses (a set, bytes, an arbitrary object). Floating point numbers are left out, and
  so is the cap that newer interpreters put on the number of digits of an integer they
  convert to or from text.
  A dictionary keeps its insertion order, so it is an association list; a Python
  dictionary never holds a key twice.
\<close>

datatype pykey = KStr string | KInt int

datatype pyval =
    PNone
  | PBool bool
  | PInt int
  | PStr string
  | PList "pyval list"
  | PTuple "pyval list"
  | PDict "(pykey \<times> pyval) list"
  | PObject

text \<open>
  A JSON document as it stands in a TEXT column or in an export file. The text itself
  (separators, escapes, the indentation of \<^verbatim>\<open>indent=2\<close>) is not modelled: a stored
  text is identified with the document it denotes. An object is a sequence of members and
  may name a member twice.
\<close>

datatype json =
    JNull
  | JBool bool
  | JInt int
  | JStr string
  | JArr "json list"
  | JObj "(string \<times> json) list"

text \<open>The exceptions the store can meet. \<open>KeyboardInterrupt\<close> is the one kind that is
  not a subclass of \<^verbatim>\<open>Exception\<close>.\<close>

datatype py_error =
    OperationalError
  | InterfaceError
  | OverflowError
  | TypeError
  | KeyError
  | AttributeError
  | OSError
  | JSONDecodeError
  | KeyboardInterrupt

fun is_Exception :: "py_error \<Rightarrow> bool" where
  "is_Exception KeyboardInterrupt = False"
| "is_Exception _ = True"

subsection \<open>Decimal text of an integer\<close>

text \<open>\<^verbatim>\<open>str(n)\<close> for an integer: the encoder uses it for integer dictionary keys, and
  SQLite's TEXT affinity renders an integer the same way.\<close>

definition digit_char :: "nat \<Rightarrow> char" where
  "digit_char d = char_of (48 + d)"

fun str_nat :: "nat \<Rightarrow> string" where
  "str_nat n = (if n < 10 then [digit_char n] else str_nat (n div 10) @ [digit_char (n mod 10)])"

declare str_nat.simps [simp del]

definition str_int :: "int \<Rightarrow> string" where
  "str_int i = (if i < 0 then CHR ''-'' # str_nat (nat (- i)) else str_nat (nat i))"

subsection \<open>\<^verbatim>\<open>json.dumps\<close>\<close>

text \<open>
  The encoder writes a list and a tuple alike as an array, a dictionary as an object with
  the members in the dictionary's order, and every key as a string: a string key stays,
  an integer key becomes its decimal text. A value it does not know raises
  \<^verbatim>\<open>TypeError\<close>.
\<close>

fun key_name :: "pykey \<Rightarrow> string" where
  "key_name (KStr s) = s"
| "key_name (KInt i) = str_int i"

fun json_dumps :: "pyval \<Rightarrow> py_error + json"
  and json_dumps_list :: "pyval list \<Rightarrow> py_error + json list"
  and json_dumps_items :: "(pykey \<times> pyval) list \<Rightarrow> py_error + (string \<times> json) list"
where
  "json_dumps PNone = Inr JNull"
| "json_dumps (PBool b) = Inr (JBool b)"
| "json_dumps (PInt i) = Inr (JInt i)"
| "json_dumps (PStr s) = Inr (JStr s)"
| "json_dumps (PList vs) =
     (case json_dumps_list vs of Inl e \<Rightarrow> Inl e | Inr js \<Rightarrow> Inr (JArr js))"
| "json_dumps (PTuple vs) =
     (case json_dumps_list vs of Inl e \<Rightarrow> Inl e | Inr js \<Rightarrow> Inr (JArr js))"
| "json_dumps (PDict kvs) =
     (case json_dumps_items kvs of Inl e \<Rightarrow> Inl e | Inr ms \<Rightarrow> Inr (JObj ms))"
| "json_dumps PObject = Inl TypeError"
| "json_dumps_list [] = Inr []"
| "json_dumps_list (v # vs) =
     (case json_dumps v of
        Inl e \<Rightarrow> Inl e
      | Inr j \<Rightarrow> (case json_dumps_list vs of Inl e \<Rightarrow> Inl e | Inr js \<Rightarrow> Inr (j # js)))"
| "json_dumps_items [] = Inr []"
| "json_dumps_items (kv # kvs) =
     (case json_dumps (snd kv) of
        Inl e \<Rightarrow> Inl e
      | Inr j \<Rightarrow>
          (case json_dumps_items kvs of
             Inl e \<Rightarrow> Inl e
           | Inr ms \<Rightarrow> Inr ((key_name (fst kv), j) # ms)))"

subsection \<open>\<^verbatim>\<open>json.loads\<close>\<close>

text \<open>
  The decoder builds a list from an array and a dictionary from an object, storing the
  members one after the other: a name met again overwrites the value and keeps the place
  of its first occurrence, which is what \<open>AList.update\<close> does. Every key it builds
  is a string.
\<close>

definition dict_of_items :: "(pykey \<times> pyval) list \<Rightarrow> (pykey \<times> pyval) list" where
  "dict_of_items kvs = fold (\<lambda>kv d. AList.update (fst kv) (snd kv) d) kvs []"

fun json_loads :: "json \<Rightarrow> pyval"
  and json_loads_list :: "json list \<Rightarrow> pyval list"
  and json_loads_members :: "(string \<times> json) list \<Rightarrow> (pykey \<times> pyval) list"
where
  "json_loads JNull = PNone"
| "json_loads (JBool b) = PBool b"
| "json_loads (JInt i) = PInt i"
| "json_loads (JStr s) = PStr s"
| "json_loads (JArr js) = PList (json_loads_list js)"
| "json_loads (JObj ms) = PDict (dict_of_items (json_loads_members ms))"
| "json_loads_list [] = []"
| "json_loads_list (j # js) = json_loads j # json_loads_list js"
| "json_loads_members [] = []"
| "json_loads_members (m # ms) = (KStr (fst m), json_loads (snd m)) # json_loads_members ms"

text \<open>
  The values that JSON has a notation of its own for: no tuple, no opaque object, every
  dictionary key a string, and no key twice.
\<close>

fun json_plain :: "pyval \<Rightarrow> bool"
  and json_plain_list :: "pyval list \<Rightarrow> bool"
  and json_plain_items :: "(pykey \<times> pyval) list \<Rightarrow> bool"
where
  "json_plain PNone = True"
| "json_plain (PBool b) = True"
| "json_plain (PInt i) = True"
| "json_plain (PStr s) = True"
| "json_plain (PList vs) = json_plain_list vs"
| "json_plain (PTuple vs) = False"
| "json_plain (PDict kvs) = (json_plain_items kvs \<and> distinct (map fst kvs))"
| "json_plain PObject = False"
| "json_plain_list [] = True"
| "json_plain_list (v # vs) = (json_plain v \<and> json_plain_list vs)"
| "json_plain_items [] = True"
| "json_plain_items (kv # kvs) =
     ((case fst kv of KStr s \<Rightarrow> True | KInt i \<Rightarrow> False) \<and> json_plain (snd kv) \<and> json_plain_items kvs)"

section \<open>The SQLite engine, as the store uses it\<close>

text \<open>
  Every text column of the four tables has TEXT affinity, so a cell holds NULL or a text.
\<close>

datatype sqlval = SNull | SText string

fun py_of_sql :: "sqlval \<Rightarrow> pyval" where
  "py_of_sql SNull = PNone"
| "py_of_sql (SText s) = PStr s"

text \<open>
  A table declared \<^verbatim>\<open>id INTEGER PRIMARY KEY AUTOINCREMENT\<close>: its rows in insertion
  order, each with its id, and the entry \<open>tbl_seq\<close> that SQLite keeps for the table in
  \<^verbatim>\<open>sqlite_sequence\<close>, the largest id it has ever given out. \<open>tbl_issued\<close> is a
  history variable, the ids given out so far in order; no operation reads it.
\<close>

record 'r table =
  tbl_rows :: "(int \<times> 'r) list"
  tbl_seq :: int
  tbl_issued :: "int list"

definition empty_table :: "'r table" where
  "empty_table = \<lparr>tbl_rows = [], tbl_seq = 0, tbl_issued = []\<rparr>"

definition MAX_ROWID :: int where
  "MAX_ROWID = 9223372036854775807"

definition largest_rowid :: "(int \<times> 'r) list \<Rightarrow> int" where
  "largest_rowid rs = fold max (map fst rs) 0"

text \<open>
  \<^verbatim>\<open>INSERT\<close> without an id: the new id is one more than the larger of the recorded
  sequence value and the largest id in the table; when that is already the largest 64-bit
  integer the statement fails (\<^verbatim>\<open>SQLITE_FULL\<close>, an \<^verbatim>\<open>OperationalError\<close>).
\<close>

definition tbl_insert :: "'r \<Rightarrow> 'r table \<Rightarrow> py_error + 'r table" where
  "tbl_insert r t =
     (let hi = max (tbl_seq t) (largest_rowid (tbl_rows t)) in
      if MAX_ROWID \<le> hi then Inl OperationalError
      else Inr (t\<lparr>tbl_rows := tbl_rows t @ [(hi + 1, r)], tbl_seq := hi + 1,
                   tbl_issued := tbl_issued t @ [hi + 1]\<rparr>))"

text \<open>\<^verbatim>\<open>DELETE FROM t\<close> removes the rows and leaves \<^verbatim>\<open>sqlite_sequence\<close> alone.\<close>

definition tbl_delete :: "'r table \<Rightarrow> 'r table" where
  "tbl_delete t = t\<lparr>tbl_rows := []\<rparr>"

text \<open>A scan returns the rows by ascending id; \<^verbatim>\<open>ORDER BY id DESC\<close> reverses it;
  \<^verbatim>\<open>LIMIT n\<close> keeps the first \<open>n\<close> rows, and all of them when \<open>n\<close> is negative.\<close>

definition table_scan :: "(int \<times> 'r) list \<Rightarrow> (int \<times> 'r) list" where
  "table_scan rs = sort_key fst rs"



text \<open>
  Binding a Python value to a statement parameter. An integer must fit SQLite's 64-bit
  INTEGER, otherwise the \<^verbatim>\<open>sqlite3\<close> module raises \<^verbatim>\<open>OverflowError\<close>
  (\<^verbatim>\<open>Python int too large to convert to SQLite INTEGER\<close>); a list, a tuple, a
  dictionary or an object cannot be bound at all. In a TEXT column an integer is stored
  as its decimal text, a boolean as the integer it is.
\<close>

definition bind_int :: "int \<Rightarrow> py_error + int" where
  "bind_int n = (if - MAX_ROWID - 1 \<le> n \<and> n \<le> MAX_ROWID then Inr n else Inl OverflowError)"

fun bind_text :: "pyval \<Rightarrow> py_error + sqlval" where
  "bind_text PNone = Inr SNull"
| "bind_text (PStr s) = Inr (SText s)"
| "bind_text (PInt i) = (case bind_int i of Inl e \<Rightarrow> Inl e | Inr n \<Rightarrow> Inr (SText (str_int n)))"
| "bind_text (PBool b) = Inr (SText (if b then ''1'' else ''0''))"
| "bind_text _ = Inl InterfaceError"

fun bind_key :: "pykey \<Rightarrow> py_error + string" where
  "bind_key (KStr s) = Inr s"
| "bind_key (KInt i) = (case bind_int i of Inl e \<Rightarrow> Inl e | Inr n \<Rightarrow> Inr (str_int n))"

section \<open>The store\<close>

text \<open>
  The database file: \<^verbatim>\<open>conversations(id, timestamp, conversation_data)\<close>,
  \<^verbatim>\<open>preferences(key, value)\<close>, \<^verbatim>\<open>scraping_results(id, timestamp, url, data)\<close> and
  \<^verbatim>\<open>analysis_results(id, timestamp, description, data)\<close>. The preferences are kept in
  the order of their rows.
\<close>

record db =
  conversations :: "(sqlval \<times> json) table"
  preferences :: "(string \<times> json) list"
  scraping_results :: "(sqlval \<times> sqlval \<times> json) table"
  analysis_results :: "(sqlval \<times> sqlval \<times> json) table"

text \<open>
  What a call finds around it: the local time \<^verbatim>\<open>time.strftime\<close> returns, the
  exception the database raises at this call, if any, and the exception opening the
  file raises, if any.
\<close>

record env =
  now :: string
  db_fault :: "py_error option"
  fs_fault :: "py_error option"

datatype file_content = JsonFile json | GarbageFile

type_synonym fs = "string \<Rightarrow> file_content option"

definition try_then :: "py_error + 'a \<Rightarrow> ('a \<Rightarrow> py_error + 'b) \<Rightarrow> py_error + 'b" where
  "try_then x f = (case x of Inl e \<Rightarrow> Inl e | Inr a \<Rightarrow> f a)"

lemma try_then_cong [fundef_cong]:
  "x = y \<Longrightarrow> (\<And>a. y = Inr a \<Longrightarrow> f a = g a) \<Longrightarrow> try_then x f = try_then y g"
  by (cases y) (simp_all add: try_then_def)

text \<open>\<^verbatim>\<open>try: ... except Exception as e: print(...); return dflt\<close>\<close>

definition except_Exception :: "py_error + 'a \<Rightarrow> 'a \<Rightarrow> py_error + 'a" where
  "except_Exception body dflt =
     (case body of Inr r \<Rightarrow> Inr r | Inl e \<Rightarrow> if is_Exception e then Inr dflt else Inl e)"

definition connect :: "env \<Rightarrow> py_error + unit" where
  "connect e = (case db_fault e of Some x \<Rightarrow> Inl x | None \<Rightarrow> Inr ())"

text \<open>\<^verbatim>\<open>_init_database\<close> on a new file: four empty tables. On a file that has them,
  \<^verbatim>\<open>CREATE TABLE IF NOT EXISTS\<close> changes nothing.\<close>

definition init_database :: db where
  "init_database = \<lparr>conversations = empty_table, preferences = [],
     scraping_results = empty_table, analysis_results = empty_table\<rparr>"

subsection \<open>Conversations\<close>

definition save_conversation_body :: "env \<Rightarrow> db \<Rightarrow> pyval \<Rightarrow> py_error + db \<times> bool" where
  "save_conversation_body e s conversation_data =
     try_then (connect e) (\<lambda>_.
     try_then (json_dumps conversation_data) (\<lambda>data_json.
     try_then (tbl_insert (SText (now e), data_json) (conversations s)) (\<lambda>t.
     Inr (s\<lparr>conversations := t\<rparr>, True))))"

definition save_conversation :: "env \<Rightarrow> db \<Rightarrow> pyval \<Rightarrow> py_error + db \<times> bool" where
  "save_conversation e s conversation_data =
     except_Exception (save_conversation_body e s conversation_data) (s, False)"

fun conversation_entry :: "int \<times> sqlval \<times> json \<Rightarrow> pyval" where
  "conversation_entry (i, ts, d) =
     PDict [(KStr ''id'', PInt i), (KStr ''timestamp'', py_of_sql ts),
            (KStr ''data'', json_loads d)]"



subsection \<open>Preferences\<close>

text \<open>\<^verbatim>\<open>INSERT OR REPLACE\<close> deletes the row that has the key, if there is one, and
  inserts the new row after all the others.\<close>

definition insert_or_replace :: "string \<Rightarrow> json \<Rightarrow> (string \<times> json) list \<Rightarrow> (string \<times> json) list" where
  "insert_or_replace k v ps = filter (\<lambda>p. fst p \<noteq> k) ps @ [(k, v)]"

definition save_preference_body :: "env \<Rightarrow> db \<Rightarrow> string \<Rightarrow> pyval \<Rightarrow> py_error + db \<times> bool" where
  "save_preference_body e s key val =
     try_then (connect e) (\<lambda>_.
     try_then (json_dumps val) (\<lambda>value_json.
     Inr (s\<lparr>preferences := insert_or_replace key value_json (preferences s)\<rparr>, True)))"

definition save_preference :: "env \<Rightarrow> db \<Rightarrow> string \<Rightarrow> pyval \<Rightarrow> py_error + db \<times> bool" where
  "save_preference e s key val = except_Exception (save_preference_body e s key val) (s, False)"

definition load_preference_body :: "env \<Rightarrow> db \<Rightarrow> string \<Rightarrow> pyval \<Rightarrow> py_error + pyval" where
  "load_preference_body e s key dflt =
     try_then (connect e) (\<lambda>_.
     (case map_of (preferences s) key of
        Some v \<Rightarrow> Inr (json_loads v)
      | None \<Rightarrow> Inr dflt))"

definition load_preference :: "env \<Rightarrow> db \<Rightarrow> string \<Rightarrow> pyval \<Rightarrow> py_error + pyval" where
  "load_preference e s key dflt = except_Exception (load_preference_body e s key dflt) dflt"

subsection \<open>Scraping results and analysis results\<close>

definition save_scraping_result_body :: "env \<Rightarrow> db \<Rightarrow> string \<Rightarrow> pyval \<Rightarrow> py_error + db \<times> bool" where
  "save_scraping_result_body e s url data =
     try_then (connect e) (\<lambda>_.
     try_then (json_dumps data) (\<lambda>data_json.
     try_then (tbl_insert (SText (now e), SText url, data_json) (scraping_results s)) (\<lambda>t.
     Inr (s\<lparr>scraping_results := t\<rparr>, True))))"

definition save_scraping_result :: "env \<Rightarrow> db \<Rightarrow> string \<Rightarrow> pyval \<Rightarrow> py_error + db \<times> bool" where
  "save_scraping_result e s url data =
     except_Exception (save_scraping_result_body e s url data) (s, False)"

fun scraping_entry :: "int \<times> sqlval \<times> sqlval \<times> json \<Rightarrow> pyval" where
  "scraping_entry (i, ts, u, d) =
     PDict [(KStr ''id'', PInt i), (KStr ''timestamp'', py_of_sql ts),
            (KStr ''url'', py_of_sql u), (KStr ''data'', json_loads d)]"



definition save_analysis_result_body :: "env \<Rightarrow> db \<Rightarrow> string \<Rightarrow> pyval \<Rightarrow> py_error + db \<times> bool" where
  "save_analysis_result_body e s description data =
     try_then (connect e) (\<lambda>_.
     try_then (json_dumps data) (\<lambda>data_json.
     try_then (tbl_insert (SText (now e), SText description, data_json) (analysis_results s)) (\<lambda>t.
     Inr (s\<lparr>analysis_results := t\<rparr>, True))))"

definition save_analysis_result :: "env \<Rightarrow> db \<Rightarrow> string \<Rightarrow> pyval \<Rightarrow> py_error + db \<times> bool" where
  "save_analysis_result e s description data =
     except_Exception (save_analysis_result_body e s description data) (s, False)"

fun analysis_entry :: "int \<times> sqlval \<times> sqlval \<times> json \<Rightarrow> pyval" where
  "analysis_entry (i, ts, dsc, d) =
     PDict [(KStr ''id'', PInt i), (KStr ''timestamp'', py_of_sql ts),
            (KStr ''description'', py_of_sql dsc), (KStr ''data'', json_loads d)]"



subsection \<open>Clearing\<close>

definition delete_all_tables :: "db \<Rightarrow> db" where
  "delete_all_tables s =
     s\<lparr>conversations := tbl_delete (conversations s), preferences := [],
       scraping_results := tbl_delete (scraping_results s),
       analysis_results := tbl_delete (analysis_results s)\<rparr>"

definition clear_all_data :: "env \<Rightarrow> db \<Rightarrow> py_error + db \<times> bool" where
  "clear_all_data e s =
     except_Exception (try_then (connect e) (\<lambda>_. Inr (delete_all_tables s, True))) (s, False)"

definition clear_conversation_data :: "env \<Rightarrow> db \<Rightarrow> py_error + db \<times> bool" where
  "clear_conversation_data e s =
     except_Exception
       (try_then (connect e) (\<lambda>_. Inr (s\<lparr>conversations := tbl_delete (conversations s)\<rparr>, True)))
       (s, False)"

definition clear_scraping_data :: "env \<Rightarrow> db \<Rightarrow> py_error + db \<times> bool" where
  "clear_scraping_data e s =
     except_Exception
       (try_then (connect e) (\<lambda>_. Inr (s\<lparr>scraping_results := tbl_delete (scraping_results s)\<rparr>, True)))
       (s, False)"

definition clear_analysis_data :: "env \<Rightarrow> db \<Rightarrow> py_error + db \<times> bool" where
  "clear_analysis_data e s =
     except_Exception
       (try_then (connect e) (\<lambda>_. Inr (s\<lparr>analysis_results := tbl_delete (analysis_results s)\<rparr>, True)))
       (s, False)"

text \<open>
  \<^verbatim>\<open>ApplicationController.clear_memory\<close> is the one entry point that takes the
  category by name. Of what it does, only the effect on the store is kept here: the
  histories the other modules hold in memory are not part of the store.
\<close>

definition clear_memory :: "env \<Rightarrow> db \<Rightarrow> string \<Rightarrow> py_error + db \<times> bool" where
  "clear_memory e s memory_type =
     (if memory_type = ''all'' then clear_all_data e s
      else if memory_type = ''conversations'' then clear_conversation_data e s
      else if memory_type = ''scraping'' then clear_scraping_data e s
      else if memory_type = ''analysis'' then clear_analysis_data e s
      else Inr (s, False))"

subsection \<open>What the import does with a decoded document\<close>

text \<open>
  \<^verbatim>\<open>d.get(k, dflt)\<close> and \<^verbatim>\<open>d.items()\<close> exist on a dictionary only; \<^verbatim>\<open>x[k]\<close>
  with a string \<open>k\<close> needs a dictionary that has the key; a \<^verbatim>\<open>for\<close> loop runs over
  the elements of a list or tuple, the keys of a dictionary and the characters of a string.
\<close>

fun py_get :: "pyval \<Rightarrow> string \<Rightarrow> pyval \<Rightarrow> py_error + pyval" where
  "py_get (PDict kvs) k dflt = Inr (case map_of kvs (KStr k) of Some v \<Rightarrow> v | None \<Rightarrow> dflt)"
| "py_get _ k dflt = Inl AttributeError"

fun py_items :: "pyval \<Rightarrow> py_error + (pykey \<times> pyval) list" where
  "py_items (PDict kvs) = Inr kvs"
| "py_items _ = Inl AttributeError"

fun py_getitem :: "pyval \<Rightarrow> string \<Rightarrow> py_error + pyval" where
  "py_getitem (PDict kvs) k = (case map_of kvs (KStr k) of Some v \<Rightarrow> Inr v | None \<Rightarrow> Inl KeyError)"
| "py_getitem _ k = Inl TypeError"

fun key_value :: "pykey \<Rightarrow> pyval" where
  "key_value (KStr s) = PStr s"
| "key_value (KInt i) = PInt i"

fun py_iter :: "pyval \<Rightarrow> py_error + pyval list" where
  "py_iter (PList vs) = Inr vs"
| "py_iter (PTuple vs) = Inr vs"
| "py_iter (PDict kvs) = Inr (map (\<lambda>kv. key_value (fst kv)) kvs)"
| "py_iter (PStr s) = Inr (map (\<lambda>c. PStr [c]) s)"
| "py_iter _ = Inl TypeError"

subsection \<open>Export and import\<close>

definition export_data :: "env \<Rightarrow> db \<Rightarrow> pyval" where
  "export_data e s =
     PDict [
       (KStr ''conversations'',
          PList (map conversation_entry (table_scan (tbl_rows (conversations s))))),
       (KStr ''preferences'',
          PDict (dict_of_items (map (\<lambda>p. (KStr (fst p), json_loads (snd p))) (preferences s)))),
       (KStr ''scraping_results'',
          PList (map scraping_entry (table_scan (tbl_rows (scraping_results s))))),
       (KStr ''analysis_results'',
          PList (map analysis_entry (table_scan (tbl_rows (analysis_results s))))),
       (KStr ''export_timestamp'', PStr (now e))]"

text \<open>
  The export reads the four tables, then opens the file for writing and dumps the
  document into it. An encoder failure after the file was opened leaves a file that is
  not a JSON document.
\<close>

definition export_all_data_body :: "env \<Rightarrow> db \<Rightarrow> fs \<Rightarrow> string \<Rightarrow> fs \<times> (py_error + unit)" where
  "export_all_data_body e s files file_path =
     (case connect e of
        Inl x \<Rightarrow> (files, Inl x)
      | Inr _ \<Rightarrow>
          (case fs_fault e of
             Some x \<Rightarrow> (files, Inl x)
           | None \<Rightarrow>
               (case json_dumps (export_data e s) of
                  Inl x \<Rightarrow> (files(file_path \<mapsto> GarbageFile), Inl x)
                | Inr doc \<Rightarrow> (files(file_path \<mapsto> JsonFile doc), Inr ()))))"

definition export_all_data :: "env \<Rightarrow> db \<Rightarrow> fs \<Rightarrow> string \<Rightarrow> py_error + fs \<times> bool" where
  "export_all_data e s files file_path =
     (case export_all_data_body e s files file_path of
        (files', Inr _) \<Rightarrow> Inr (files', True)
      | (files', Inl x) \<Rightarrow> if is_Exception x then Inr (files', False) else Inl x)"

text \<open>\<^verbatim>\<open>with open(file_path, 'r') as f: import_data = json.load(f)\<close>\<close>

definition read_json_file :: "env \<Rightarrow> fs \<Rightarrow> string \<Rightarrow> py_error + pyval" where
  "read_json_file e files file_path =
     (case fs_fault e of
        Some x \<Rightarrow> Inl x
      | None \<Rightarrow>
          (case files file_path of
             None \<Rightarrow> Inl OSError
           | Some GarbageFile \<Rightarrow> Inl JSONDecodeError
           | Some (JsonFile j) \<Rightarrow> Inr (json_loads j)))"

fun import_conversations ::
  "pyval list \<Rightarrow> (sqlval \<times> json) table \<Rightarrow> py_error + (sqlval \<times> json) table" where
  "import_conversations [] t = Inr t"
| "import_conversations (conv # convs) t =
     try_then (py_getitem conv ''data'') (\<lambda>d.
     try_then (json_dumps d) (\<lambda>data_json.
     try_then (py_getitem conv ''timestamp'') (\<lambda>ts.
     try_then (bind_text ts) (\<lambda>ts'.
     try_then (tbl_insert (ts', data_json) t) (\<lambda>t'.
     import_conversations convs t')))))"

fun import_preferences ::
  "(pykey \<times> pyval) list \<Rightarrow> (string \<times> json) list \<Rightarrow> py_error + (string \<times> json) list" where
  "import_preferences [] ps = Inr ps"
| "import_preferences (kv # kvs) ps =
     try_then (json_dumps (snd kv)) (\<lambda>value_json.
     try_then (bind_key (fst kv)) (\<lambda>k.
     import_preferences kvs (insert_or_replace k value_json ps)))"

text \<open>The loops over \<^verbatim>\<open>scraping_results\<close> and \<^verbatim>\<open>analysis_results\<close> differ in the
  name of the third field only (\<^verbatim>\<open>url\<close>, \<^verbatim>\<open>description\<close>).\<close>

fun import_results ::
  "string \<Rightarrow> pyval list \<Rightarrow> (sqlval \<times> sqlval \<times> json) table
     \<Rightarrow> py_error + (sqlval \<times> sqlval \<times> json) table" where
  "import_results field [] t = Inr t"
| "import_results field (result # results) t =
     try_then (py_getitem result ''data'') (\<lambda>d.
     try_then (json_dumps d) (\<lambda>data_json.
     try_then (py_getitem result ''timestamp'') (\<lambda>ts.
     try_then (py_getitem result field) (\<lambda>u.
     try_then (bind_text ts) (\<lambda>ts'.
     try_then (bind_text u) (\<lambda>u'.
     try_then (tbl_insert (ts', u', data_json) t) (\<lambda>t'.
     import_results field results t')))))))"

definition import_data_body :: "env \<Rightarrow> db \<Rightarrow> fs \<Rightarrow> string \<Rightarrow> bool \<Rightarrow> py_error + db \<times> bool" where
  "import_data_body e s files file_path replace_existing =
     try_then (read_json_file e files file_path) (\<lambda>import_data.
     try_then (connect e) (\<lambda>_.
     let s0 = (if replace_existing then delete_all_tables s else s) in
     try_then (py_get import_data ''conversations'' (PList [])) (\<lambda>cs.
     try_then (py_iter cs) (\<lambda>convs.
     try_then (import_conversations convs (conversations s0)) (\<lambda>ct.
     try_then (py_get import_data ''preferences'' (PDict [])) (\<lambda>ps.
     try_then (py_items ps) (\<lambda>items.
     try_then (import_preferences items (preferences s0)) (\<lambda>pt.
     try_then (py_get import_data ''scraping_results'' (PList [])) (\<lambda>ss.
     try_then (py_iter ss) (\<lambda>scrs.
     try_then (import_results ''url'' scrs (scraping_results s0)) (\<lambda>st.
     try_then (py_get import_data ''analysis_results'' (PList [])) (\<lambda>as.
     try_then (py_iter as) (\<lambda>anas.
     try_then (import_results ''description'' anas (analysis_results s0)) (\<lambda>at.
     Inr (\<lparr>conversations = ct, preferences = pt, scraping_results = st,
           analysis_results = at\<rparr>, True)))))))))))))))"

text \<open>An exception leaves the function before \<^verbatim>\<open>conn.commit()\<close>, and the statements run
  so far are rolled back with the connection: the database is as it was.\<close>

definition import_data :: "env \<Rightarrow> db \<Rightarrow> fs \<Rightarrow> string \<Rightarrow> bool \<Rightarrow> py_error + db \<times> bool" where
  "import_data e s files file_path replace_existing =
     except_Exception (import_data_body e s files file_path replace_existing) (s, False)"

section \<open>Reachable stores and their invariant\<close>

text \<open>One call of an operation that writes to the database, whatever it returns.\<close>

inductive step :: "db \<Rightarrow> db \<Rightarrow> bool" where
  s_save_conversation: "save_conversation e s v = Inr (s', b) \<Longrightarrow> step s s'"
| s_save_preference: "save_preference e s k v = Inr (s', b) \<Longrightarrow> step s s'"
| s_save_scraping_result: "save_scraping_result e s u v = Inr (s', b) \<Longrightarrow> step s s'"
| s_save_analysis_result: "save_analysis_result e s u v = Inr (s', b) \<Longrightarrow> step s s'"
| s_clear_memory: "clear_memory e s m = Inr (s', b) \<Longrightarrow> step s s'"
| s_import_data: "import_data e s files p r = Inr (s', b) \<Longrightarrow> step s s'"

inductive reachable :: "db \<Rightarrow> bool" where
  r_init: "reachable init_database"
| r_step: "reachable s \<Longrightarrow> step s s' \<Longrightarrow> reachable s'"

definition wf_table :: "'r table \<Rightarrow> bool" where
  "wf_table t \<longleftrightarrow>
     sorted_wrt (<) (map fst (tbl_rows t)) \<and>
     sorted_wrt (<) (tbl_issued t) \<and>
     set (map fst (tbl_rows t)) \<subseteq> set (tbl_issued t) \<and>
     list_all (\<lambda>i. 0 < i \<and> i \<le> tbl_seq t) (tbl_issued t) \<and>
     0 \<le> tbl_seq t \<and> tbl_seq t \<le> MAX_ROWID"

definition wf_db :: "db \<Rightarrow> bool" where
  "wf_db s \<longleftrightarrow>
     wf_table (conversations s) \<and> wf_table (scraping_results s) \<and>
     wf_table (analysis_results s) \<and> distinct (map fst (preferences s))"

section \<open>Basic facts\<close>

subsection \<open>The JSON round trip\<close>

lemma update_fresh: "k \<notin> fst ` set al \<Longrightarrow> AList.update k v al = al @ [(k, v)]"
  by (induction al) auto

lemma fold_update_distinct:
  "distinct (map fst (acc @ kvs)) \<Longrightarrow>
   fold (\<lambda>kv d. AList.update (fst kv) (snd kv) d) kvs acc = acc @ kvs"
proof (induction kvs arbitrary: acc)
  case Nil
  then show ?case by simp
next
  case (Cons kv kvs)
  from Cons.prems have fresh: "fst kv \<notin> fst ` set acc" by auto
  from Cons.prems have d: "distinct (map fst ((acc @ [kv]) @ kvs))" by simp
  have "AList.update (fst kv) (snd kv) acc = acc @ [kv]"
    using update_fresh [OF fresh, of "snd kv"] by simp
  then show ?case using Cons.IH [OF d] by simp
qed

lemma dict_of_items_distinct: "distinct (map fst kvs) \<Longrightarrow> dict_of_items kvs = kvs"
  using fold_update_distinct [of "[]" kvs] by (simp add: dict_of_items_def)

lemma fold_update_keys:
  "distinct (map fst acc) \<Longrightarrow>
   distinct (map fst (fold (\<lambda>kv d. AList.update (fst kv) (snd kv) d) kvs acc))"
  by (induction kvs arbitrary: acc) (simp_all add: distinct_update)

lemma distinct_dict_of_items: "distinct (map fst (dict_of_items kvs))"
  by (simp add: dict_of_items_def fold_update_keys)

lemma json_plain_items_update:
  "json_plain_items d \<Longrightarrow> json_plain v \<Longrightarrow> json_plain_items (AList.update (KStr k) v d)"
  by (induction d) (auto split: pykey.splits)

lemma roundtrip_plain:
  "(json_plain v \<longrightarrow> (\<exists>j. json_dumps v = Inr j \<and> json_loads j = v))"
  "(json_plain_list vs \<longrightarrow> (\<exists>js. json_dumps_list vs = Inr js \<and> json_loads_list js = vs))"
  "(json_plain_items kvs \<longrightarrow>
      (\<exists>ms. json_dumps_items kvs = Inr ms \<and> json_loads_members ms = kvs))"
proof (induction v and vs and kvs rule: json_dumps_json_dumps_list_json_dumps_items.induct)
  case (7 kvs)
  then show ?case by (auto simp: dict_of_items_distinct)
next
  case (12 kv kvs)
  then show ?case by (cases kv) (auto split: pykey.splits)
qed auto

lemma json_plain_items_update2:
  "json_plain_items d \<Longrightarrow> json_plain_items [kv] \<Longrightarrow>
   json_plain_items (AList.update (fst kv) (snd kv) d)"
  by (induction d) (auto split: pykey.splits)

lemma json_plain_items_fold:
  "json_plain_items acc \<Longrightarrow> json_plain_items kvs \<Longrightarrow>
   json_plain_items (fold (\<lambda>kv d. AList.update (fst kv) (snd kv) d) kvs acc)"
proof (induction kvs arbitrary: acc)
  case Nil
  then show ?case by simp
next
  case (Cons kv kvs)
  from Cons.prems(2) have one: "json_plain_items [kv]" and rest: "json_plain_items kvs"
    by simp_all
  show ?case
    using Cons.IH [OF json_plain_items_update2 [OF Cons.prems(1) one] rest] by simp
qed

lemma json_loads_plain:
  "json_plain (json_loads j)"
  "json_plain_list (json_loads_list js)"
  "json_plain_items (json_loads_members ms)"
proof (induction j and js and ms rule: json_loads_json_loads_list_json_loads_members.induct)
  case (6 ms)
  then show ?case
    using distinct_dict_of_items [of "json_loads_members ms"]
    by (simp add: json_plain_items_fold) (simp add: dict_of_items_def json_plain_items_fold)
qed simp_all

lemma json_roundtrip: "json_plain v \<Longrightarrow> \<exists>j. json_dumps v = Inr j \<and> json_loads j = v"
  using roundtrip_plain(1) by blast

lemma json_reload: "json_dumps (json_loads j) = Inr j' \<Longrightarrow> json_loads j' = json_loads j"
  using json_roundtrip [OF json_loads_plain(1), of j] by auto

lemma json_dumps_loads_ok: "\<exists>j'. json_dumps (json_loads j) = Inr j'"
  using json_roundtrip [OF json_loads_plain(1), of j] by auto

subsection \<open>Tables\<close>

lemma fold_max_le: "(\<forall>x\<in>set xs. x \<le> (b::int)) \<Longrightarrow> a \<le> b \<Longrightarrow> fold max xs a \<le> b"
  by (induction xs arbitrary: a) auto

lemma largest_rowid_le:
  "wf_table t \<Longrightarrow> largest_rowid (tbl_rows t) \<le> tbl_seq t"
  unfolding wf_table_def largest_rowid_def
  by (rule fold_max_le) (auto simp: list_all_iff)

lemma tbl_insert_wf_eq:
  "wf_table t \<Longrightarrow>
   tbl_insert r t =
     (if tbl_seq t = MAX_ROWID then Inl OperationalError
      else Inr (t\<lparr>tbl_rows := tbl_rows t @ [(tbl_seq t + 1, r)], tbl_seq := tbl_seq t + 1,
                   tbl_issued := tbl_issued t @ [tbl_seq t + 1]\<rparr>))"
  using largest_rowid_le [of t]
  by (auto simp: tbl_insert_def Let_def max_def wf_table_def)

lemma wf_table_insert:
  assumes "wf_table t" and "tbl_insert r t = Inr t'"
  shows "wf_table t'"
proof -
  from assms have t': "t' = t\<lparr>tbl_rows := tbl_rows t @ [(tbl_seq t + 1, r)], tbl_seq := tbl_seq t + 1,
                   tbl_issued := tbl_issued t @ [tbl_seq t + 1]\<rparr>" and lt: "tbl_seq t \<noteq> MAX_ROWID"
    by (auto simp: tbl_insert_wf_eq split: if_splits)
  from assms(1) have a: "\<forall>i\<in>set (tbl_issued t). 0 < i \<and> i \<le> tbl_seq t"
    by (simp add: wf_table_def list_all_iff)
  from assms(1) have b: "set (map fst (tbl_rows t)) \<subseteq> set (tbl_issued t)"
    by (simp add: wf_table_def)
  show ?thesis
    using assms(1) a b lt unfolding t' wf_table_def
    by (auto simp: sorted_wrt_append list_all_iff)
qed

lemma wf_table_delete: "wf_table t \<Longrightarrow> wf_table (tbl_delete t)"
  by (simp add: wf_table_def tbl_delete_def)

lemma wf_table_empty: "wf_table empty_table"
  by (simp add: wf_table_def empty_table_def MAX_ROWID_def)

lemma table_scan_wf: "wf_table t \<Longrightarrow> table_scan (tbl_rows t) = tbl_rows t"
proof -
  assume "wf_table t"
  then have "sorted_wrt (<) (map fst (tbl_rows t))" by (simp add: wf_table_def)
  then have "sorted (map fst (tbl_rows t))" by (rule strict_sorted_imp_sorted)
  then show ?thesis unfolding table_scan_def by (rule sort_key_id_if_sorted)
qed

subsection \<open>What a successful call has done\<close>

lemma try_then_Inr: "try_then x f = Inr r \<longleftrightarrow> (\<exists>a. x = Inr a \<and> f a = Inr r)"
  by (cases x) (simp_all add: try_then_def)

lemma except_Exception_Inr:
  "except_Exception body dflt = Inr r \<longleftrightarrow>
     body = Inr r \<or> (\<exists>x. body = Inl x \<and> is_Exception x \<and> r = dflt)"
  by (cases body) (auto simp: except_Exception_def)

lemma connect_Inr: "connect e = Inr u \<longleftrightarrow> db_fault e = None"
  by (simp add: connect_def split: option.splits)

lemma save_conversation_True:
  "save_conversation e s v = Inr (s', True) \<longleftrightarrow>
     db_fault e = None \<and>
     (\<exists>j t. json_dumps v = Inr j \<and> tbl_insert (SText (now e), j) (conversations s) = Inr t \<and>
            s' = s\<lparr>conversations := t\<rparr>)"
  by (auto simp: save_conversation_def save_conversation_body_def except_Exception_Inr
      try_then_Inr connect_Inr)

lemma save_conversation_False:
  "save_conversation e s v = Inr (s', False) \<Longrightarrow> s' = s"
  by (auto simp: save_conversation_def save_conversation_body_def except_Exception_Inr
      try_then_Inr)

lemma save_scraping_result_True:
  "save_scraping_result e s u v = Inr (s', True) \<longleftrightarrow>
     db_fault e = None \<and>
     (\<exists>j t. json_dumps v = Inr j \<and>
            tbl_insert (SText (now e), SText u, j) (scraping_results s) = Inr t \<and>
            s' = s\<lparr>scraping_results := t\<rparr>)"
  by (auto simp: save_scraping_result_def save_scraping_result_body_def except_Exception_Inr
      try_then_Inr connect_Inr)

lemma save_scraping_result_False:
  "save_scraping_result e s u v = Inr (s', False) \<Longrightarrow> s' = s"
  by (auto simp: save_scraping_result_def save_scraping_result_body_def except_Exception_Inr
      try_then_Inr)

lemma save_analysis_result_True:
  "save_analysis_result e s u v = Inr (s', True) \<longleftrightarrow>
     db_fault e = None \<and>
     (\<exists>j t. json_dumps v = Inr j \<and>
            tbl_insert (SText (now e), SText u, j) (analysis_results s) = Inr t \<and>
            s' = s\<lparr>analysis_results := t\<rparr>)"
  by (auto simp: save_analysis_result_def save_analysis_result_body_def except_Exception_Inr
      try_then_Inr connect_Inr)

lemma save_analysis_result_False:
  "save_analysis_result e s u v = Inr (s', False) \<Longrightarrow> s' = s"
  by (auto simp: save_analysis_result_def save_analysis_result_body_def except_Exception_Inr
      try_then_Inr)

lemma save_preference_True:
  "save_preference e s k v = Inr (s', True) \<longleftrightarrow>
     db_fault e = None \<and>
     (\<exists>j. json_dumps v = Inr j \<and> s' = s\<lparr>preferences := insert_or_replace k j (preferences s)\<rparr>)"
  by (auto simp: save_preference_def save_preference_body_def except_Exception_Inr
      try_then_Inr connect_Inr)

lemma save_preference_False:
  "save_preference e s k v = Inr (s', False) \<Longrightarrow> s' = s"
  by (auto simp: save_preference_def save_preference_body_def except_Exception_Inr
      try_then_Inr)

lemma distinct_insert_or_replace:
  "distinct (map fst ps) \<Longrightarrow> distinct (map fst (insert_or_replace k v ps))"
  by (auto simp: insert_or_replace_def distinct_map_filter)

lemma wf_db_save_conversation:
  "wf_db s \<Longrightarrow> save_conversation e s v = Inr (s', b) \<Longrightarrow> wf_db s'"
  by (cases b) (auto simp: save_conversation_True wf_db_def
      dest: save_conversation_False wf_table_insert)

lemma wf_db_save_scraping_result:
  "wf_db s \<Longrightarrow> save_scraping_result e s u v = Inr (s', b) \<Longrightarrow> wf_db s'"
  by (cases b) (auto simp: save_scraping_result_True wf_db_def
      dest: save_scraping_result_False wf_table_insert)

lemma wf_db_save_analysis_result:
  "wf_db s \<Longrightarrow> save_analysis_result e s u v = Inr (s', b) \<Longrightarrow> wf_db s'"
  by (cases b) (auto simp: save_analysis_result_True wf_db_def
      dest: save_analysis_result_False wf_table_insert)

lemma wf_db_save_preference:
  "wf_db s \<Longrightarrow> save_preference e s k v = Inr (s', b) \<Longrightarrow> wf_db s'"
  by (cases b) (auto simp: save_preference_True wf_db_def distinct_insert_or_replace
      dest: save_preference_False)

lemma wf_db_delete_all: "wf_db s \<Longrightarrow> wf_db (delete_all_tables s)"
  by (simp add: wf_db_def delete_all_tables_def wf_table_delete)

lemma clear_all_data_Inr:
  "clear_all_data e s = Inr (s', b) \<longleftrightarrow>
     (db_fault e = None \<and> b \<and> s' = delete_all_tables s) \<or>
     (\<exists>x. db_fault e = Some x \<and> is_Exception x \<and> \<not> b \<and> s' = s)"
  by (auto simp: clear_all_data_def except_Exception_Inr try_then_def connect_def
      split: option.splits)

lemma clear_conversation_data_Inr:
  "clear_conversation_data e s = Inr (s', b) \<longleftrightarrow>
     (db_fault e = None \<and> b \<and> s' = s\<lparr>conversations := tbl_delete (conversations s)\<rparr>) \<or>
     (\<exists>x. db_fault e = Some x \<and> is_Exception x \<and> \<not> b \<and> s' = s)"
  by (auto simp: clear_conversation_data_def except_Exception_Inr try_then_def connect_def
      split: option.splits)

lemma clear_scraping_data_Inr:
  "clear_scraping_data e s = Inr (s', b) \<longleftrightarrow>
     (db_fault e = None \<and> b \<and> s' = s\<lparr>scraping_results := tbl_delete (scraping_results s)\<rparr>) \<or>
     (\<exists>x. db_fault e = Some x \<and> is_Exception x \<and> \<not> b \<and> s' = s)"
  by (auto simp: clear_scraping_data_def except_Exception_Inr try_then_def connect_def
      split: option.splits)

lemma clear_analysis_data_Inr:
  "clear_analysis_data e s = Inr (s', b) \<longleftrightarrow>
     (db_fault e = None \<and> b \<and> s' = s\<lparr>analysis_results := tbl_delete (analysis_results s)\<rparr>) \<or>
     (\<exists>x. db_fault e = Some x \<and> is_Exception x \<and> \<not> b \<and> s' = s)"
  by (auto simp: clear_analysis_data_def except_Exception_Inr try_then_def connect_def
      split: option.splits)

lemma wf_db_clear_memory:
  "wf_db s \<Longrightarrow> clear_memory e s m = Inr (s', b) \<Longrightarrow> wf_db s'"
  by (auto simp: clear_memory_def clear_all_data_Inr clear_conversation_data_Inr
      clear_scraping_data_Inr clear_analysis_data_Inr wf_db_delete_all
      split: if_splits)
    (auto simp: wf_db_def wf_table_delete)

lemma wf_import_conversations:
  "wf_table t \<Longrightarrow> import_conversations cs t = Inr t' \<Longrightarrow> wf_table t'"
proof (induction cs arbitrary: t)
  case Nil
  then show ?case by simp
next
  case (Cons c cs)
  then show ?case by (auto simp: try_then_Inr dest: wf_table_insert)
qed

lemma wf_import_results:
  "wf_table t \<Longrightarrow> import_results f rs t = Inr t' \<Longrightarrow> wf_table t'"
proof (induction rs arbitrary: t)
  case Nil
  then show ?case by simp
next
  case (Cons r rs)
  then show ?case by (auto simp: try_then_Inr dest: wf_table_insert)
qed

lemma distinct_import_preferences:
  "distinct (map fst ps) \<Longrightarrow> import_preferences kvs ps = Inr ps' \<Longrightarrow> distinct (map fst ps')"
proof (induction kvs arbitrary: ps)
  case Nil
  then show ?case by simp
next
  case (Cons kv kvs)
  then show ?case by (auto simp: try_then_Inr dest: distinct_insert_or_replace)
qed

lemma import_data_False: "import_data e s files p r = Inr (s', False) \<Longrightarrow> s' = s"
  by (auto simp: import_data_def import_data_body_def except_Exception_Inr try_then_Inr Let_def)

lemma import_data_True:
  "import_data e s files p r = Inr (s', True) \<longleftrightarrow>
     import_data_body e s files p r = Inr (s', True)"
  by (auto simp: import_data_def except_Exception_Inr)

lemma import_data_body_Inr:
  "import_data_body e s files p r = Inr (s', b) \<longleftrightarrow>
    (\<exists>doc cs convs ct ps items pt ss scrs st as anas at.
       read_json_file e files p = Inr doc \<and> db_fault e = None \<and>
       py_get doc ''conversations'' (PList []) = Inr cs \<and> py_iter cs = Inr convs \<and>
       import_conversations convs (conversations (if r then delete_all_tables s else s)) = Inr ct \<and>
       py_get doc ''preferences'' (PDict []) = Inr ps \<and> py_items ps = Inr items \<and>
       import_preferences items (preferences (if r then delete_all_tables s else s)) = Inr pt \<and>
       py_get doc ''scraping_results'' (PList []) = Inr ss \<and> py_iter ss = Inr scrs \<and>
       import_results ''url'' scrs (scraping_results (if r then delete_all_tables s else s)) = Inr st \<and>
       py_get doc ''analysis_results'' (PList []) = Inr as \<and> py_iter as = Inr anas \<and>
       import_results ''description'' anas (analysis_results (if r then delete_all_tables s else s)) = Inr at \<and>
       b \<and> s' = \<lparr>conversations = ct, preferences = pt, scraping_results = st,
           analysis_results = at\<rparr>)"
  unfolding import_data_body_def Let_def try_then_Inr connect_Inr
  by (simp only: prod.inject sum.inject ex_simps) blast

lemma wf_db_import_data:
  assumes "wf_db s" and "import_data e s files p r = Inr (s', b)"
  shows "wf_db s'"
proof (cases b)
  case False
  with assms show ?thesis by (auto dest: import_data_False)
next
  case True
  let ?s0 = "if r then delete_all_tables s else s"
  have wf0: "wf_db ?s0" using assms(1) by (simp add: wf_db_delete_all)
  from True assms(2) have "import_data_body e s files p r = Inr (s', True)"
    by (simp add: import_data_True)
  then obtain convs ct items pt scrs st anas at where
    c: "import_conversations convs (conversations ?s0) = Inr ct" and
    p: "import_preferences items (preferences ?s0) = Inr pt" and
    sc: "import_results ''url'' scrs (scraping_results ?s0) = Inr st" and
    an: "import_results ''description'' anas (analysis_results ?s0) = Inr at" and
    s': "s' = \<lparr>conversations = ct, preferences = pt, scraping_results = st,
           analysis_results = at\<rparr>"
    unfolding import_data_body_Inr by blast
  from wf0 have "wf_table (conversations ?s0)" "wf_table (scraping_results ?s0)"
     "wf_table (analysis_results ?s0)" "distinct (map fst (preferences ?s0))"
    unfolding wf_db_def by blast+
  then show ?thesis
    unfolding s' wf_db_def
    using wf_import_conversations [OF _ c] wf_import_results [OF _ sc]
      wf_import_results [OF _ an] distinct_import_preferences [OF _ p]
    by simp
qed

lemma wf_db_init: "wf_db init_database"
  by (simp add: wf_db_def init_database_def wf_table_empty)

lemma wf_db_step: "wf_db s \<Longrightarrow> step s s' \<Longrightarrow> wf_db s'"
  by (erule step.cases)
    (auto intro: wf_db_save_conversation wf_db_save_preference wf_db_save_scraping_result
      wf_db_save_analysis_result wf_db_clear_memory wf_db_import_data)

lemma reachable_wf_db: "reachable s \<Longrightarrow> wf_db s"
  by (induction rule: reachable.induct) (auto intro: wf_db_init wf_db_step)

subsection \<open>Loading\<close>






subsection \<open>The ids of a table\<close>

text \<open>
  What the claim about ids asks of one table: the ids given out so far are strictly
  increasing, so none was given twice; the rows present carry some of them, in
  increasing order of insertion; and the next insertion takes an id above all of them and
  records it. \<open>log_extends\<close> says that a call only ever adds to the ids given out.
\<close>

definition id_discipline :: "'r table \<Rightarrow> bool" where
  "id_discipline t \<longleftrightarrow>
     sorted_wrt (<) (tbl_issued t) \<and>
     sorted_wrt (<) (map fst (tbl_rows t)) \<and>
     set (map fst (tbl_rows t)) \<subseteq> set (tbl_issued t) \<and>
     (\<forall>r t'. tbl_insert r t = Inr t' \<longrightarrow>
        (\<exists>i. tbl_rows t' = tbl_rows t @ [(i, r)] \<and> tbl_issued t' = tbl_issued t @ [i] \<and>
             (\<forall>k\<in>set (tbl_issued t). k < i)))"

lemma tbl_insert_issued:
  assumes "wf_table t" and "tbl_insert r t = Inr t'"
  shows "\<exists>i. tbl_rows t' = tbl_rows t @ [(i, r)] \<and> tbl_issued t' = tbl_issued t @ [i] \<and>
             (\<forall>k\<in>set (tbl_issued t). k < i)"
proof -
  from assms have t': "t' = t\<lparr>tbl_rows := tbl_rows t @ [(tbl_seq t + 1, r)], tbl_seq := tbl_seq t + 1,
                   tbl_issued := tbl_issued t @ [tbl_seq t + 1]\<rparr>"
    by (auto simp: tbl_insert_wf_eq split: if_splits)
  from assms(1) have "\<forall>k\<in>set (tbl_issued t). k < tbl_seq t + 1"
    by (auto simp: wf_table_def list_all_iff)
  then show ?thesis unfolding t' by simp
qed

lemma wf_table_id_discipline: "wf_table t \<Longrightarrow> id_discipline t"
  unfolding id_discipline_def
  using tbl_insert_issued [of t] by (simp add: wf_table_def)

lemma tbl_insert_prefix: "tbl_insert r t = Inr t' \<Longrightarrow> prefix (tbl_issued t) (tbl_issued t')"
  by (auto simp: tbl_insert_def Let_def split: if_splits)

lemma import_conversations_prefix:
  "import_conversations cs t = Inr t' \<Longrightarrow> prefix (tbl_issued t) (tbl_issued t')"
proof (induction cs arbitrary: t)
  case Nil
  then show ?case by simp
next
  case (Cons c cs)
  then show ?case
    by (auto simp: try_then_Inr dest!: tbl_insert_prefix intro: prefix_order.trans)
qed

lemma import_results_prefix:
  "import_results f rs t = Inr t' \<Longrightarrow> prefix (tbl_issued t) (tbl_issued t')"
proof (induction rs arbitrary: t)
  case Nil
  then show ?case by simp
next
  case (Cons r rs)
  then show ?case
    by (auto simp: try_then_Inr dest!: tbl_insert_prefix intro: prefix_order.trans)
qed

definition log_extends :: "db \<Rightarrow> db \<Rightarrow> bool" where
  "log_extends s s' \<longleftrightarrow>
     prefix (tbl_issued (conversations s)) (tbl_issued (conversations s')) \<and>
     prefix (tbl_issued (scraping_results s)) (tbl_issued (scraping_results s')) \<and>
     prefix (tbl_issued (analysis_results s)) (tbl_issued (analysis_results s'))"

lemma log_extends_refl: "log_extends s s"
  by (simp add: log_extends_def)

lemma log_extends_import:
  assumes "import_data e s files p r = Inr (s', b)"
  shows "log_extends s s'"
proof (cases b)
  case False
  with assms show ?thesis by (auto dest: import_data_False simp: log_extends_refl)
next
  case True
  let ?s0 = "if r then delete_all_tables s else s"
  from True assms have "import_data_body e s files p r = Inr (s', True)"
    by (simp add: import_data_True)
  then obtain convs ct scrs st anas at pt where
    c: "import_conversations convs (conversations ?s0) = Inr ct" and
    sc: "import_results ''url'' scrs (scraping_results ?s0) = Inr st" and
    an: "import_results ''description'' anas (analysis_results ?s0) = Inr at" and
    s': "s' = \<lparr>conversations = ct, preferences = pt, scraping_results = st,
           analysis_results = at\<rparr>"
    unfolding import_data_body_Inr by blast
  have same: "tbl_issued (conversations ?s0) = tbl_issued (conversations s)"
    "tbl_issued (scraping_results ?s0) = tbl_issued (scraping_results s)"
    "tbl_issued (analysis_results ?s0) = tbl_issued (analysis_results s)"
    by (simp_all add: delete_all_tables_def tbl_delete_def)
  show ?thesis
    using import_conversations_prefix [OF c] import_results_prefix [OF sc]
      import_results_prefix [OF an]
    unfolding s' log_extends_def same by simp
qed

lemma log_extends_step: "step s s' \<Longrightarrow> log_extends s s'"
proof (induction rule: step.induct)
  case (s_save_conversation e s v s' b)
  then show ?case
    by (cases b) (auto simp: save_conversation_True log_extends_def
        dest: save_conversation_False tbl_insert_prefix)
next
  case (s_save_preference e s k v s' b)
  then show ?case
    by (cases b) (auto simp: save_preference_True log_extends_def dest: save_preference_False)
next
  case (s_save_scraping_result e s u v s' b)
  then show ?case
    by (cases b) (auto simp: save_scraping_result_True log_extends_def
        dest: save_scraping_result_False tbl_insert_prefix)
next
  case (s_save_analysis_result e s u v s' b)
  then show ?case
    by (cases b) (auto simp: save_analysis_result_True log_extends_def
        dest: save_analysis_result_False tbl_insert_prefix)
next
  case (s_clear_memory e s m s' b)
  then show ?case
    by (auto simp: clear_memory_def clear_all_data_Inr clear_conversation_data_Inr
        clear_scraping_data_Inr clear_analysis_data_Inr log_extends_def delete_all_tables_def
        tbl_delete_def split: if_splits)
next
  case (s_import_data e s files p r s' b)
  then show ?case by (rule log_extends_import)
qed

subsection \<open>Rows added, rows read back\<close>

text \<open>\<open>stamped new recs\<close>: each new row carries, as its timestamp, what the
  \<^verbatim>\<open>timestamp\<close> field of the imported record it comes from binds to.\<close>

definition stamped :: "(int \<times> sqlval \<times> 'x) list \<Rightarrow> pyval list \<Rightarrow> bool" where
  "stamped new recs =
     list_all2 (\<lambda>row c. case py_getitem c ''timestamp'' of
                           Inr ts \<Rightarrow> bind_text ts = Inr (fst (snd row))
                         | Inl _ \<Rightarrow> False) new recs"

lemma tbl_insert_rows:
  "tbl_insert r t = Inr t' \<Longrightarrow> \<exists>i. tbl_rows t' = tbl_rows t @ [(i, r)]"
  by (auto simp: tbl_insert_def Let_def split: if_splits)

lemma import_conversations_stamped:
  "import_conversations cs t = Inr t' \<Longrightarrow>
   \<exists>new. tbl_rows t' = tbl_rows t @ new \<and> stamped new cs"
proof (induction cs arbitrary: t)
  case Nil
  then show ?case by (simp add: stamped_def)
next
  case (Cons c cs)
  from Cons.prems obtain j ts ts' t1 where
    ts: "py_getitem c ''timestamp'' = Inr ts" and b: "bind_text ts = Inr ts'" and
    ins: "tbl_insert (ts', j) t = Inr t1" and rest: "import_conversations cs t1 = Inr t'"
    by (auto simp: try_then_Inr)
  from tbl_insert_rows [OF ins] obtain i where t1: "tbl_rows t1 = tbl_rows t @ [(i, ts', j)]"
    by blast
  from Cons.IH [OF rest] obtain new where
    new: "tbl_rows t' = tbl_rows t1 @ new" "stamped new cs" by blast
  have "stamped ((i, ts', j) # new) (c # cs)"
    using new(2) ts b by (simp add: stamped_def)
  with new(1) t1 show ?case by (intro exI [of _ "(i, ts', j) # new"]) simp
qed

lemma import_results_stamped:
  "import_results f rs t = Inr t' \<Longrightarrow>
   \<exists>new. tbl_rows t' = tbl_rows t @ new \<and> stamped new rs"
proof (induction rs arbitrary: t)
  case Nil
  then show ?case by (simp add: stamped_def)
next
  case (Cons c cs)
  from Cons.prems obtain j ts ts' u' t1 where
    ts: "py_getitem c ''timestamp'' = Inr ts" and b: "bind_text ts = Inr ts'" and
    ins: "tbl_insert (ts', u', j) t = Inr t1" and rest: "import_results f cs t1 = Inr t'"
    by (auto simp: try_then_Inr)
  from tbl_insert_rows [OF ins] obtain i where t1: "tbl_rows t1 = tbl_rows t @ [(i, ts', u', j)]"
    by blast
  from Cons.IH [OF rest] obtain new where
    new: "tbl_rows t' = tbl_rows t1 @ new" "stamped new cs" by blast
  have "stamped ((i, ts', u', j) # new) (c # cs)"
    using new(2) ts b by (simp add: stamped_def)
  with new(1) t1 show ?case by (intro exI [of _ "(i, ts', u', j) # new"]) simp
qed



lemma map_of_insert_or_replace:
  "map_of (insert_or_replace k j ps) k' = (if k' = k then Some j else map_of ps k')"
proof -
  have "map_of (filter (\<lambda>p. fst p \<noteq> k) ps) k' = (if k' = k then None else map_of ps k')"
    by (induction ps) auto
  then show ?thesis
    by (simp add: insert_or_replace_def map_add_def split: option.splits)
qed


lemma load_preference_ok:
  "db_fault e = None \<Longrightarrow>
   load_preference e s k d =
     Inr (case map_of (preferences s) k of Some j \<Rightarrow> json_loads j | None \<Rightarrow> d)"
  by (simp add: load_preference_def load_preference_body_def try_then_def connect_def
      except_Exception_def split: option.splits)

subsection \<open>A run of appends\<close>






subsection \<open>What can be raised\<close>

text \<open>
  \<open>ordinary_faults e\<close>: whatever the database or the file system raises at this call is
  an \<^verbatim>\<open>Exception\<close>, as every I/O error is. Every other exception of the model is
  raised by the decoder, the encoder, the binding of a parameter, an insertion or the
  walk through an imported document, and each of those is an \<^verbatim>\<open>Exception\<close> too.
\<close>

definition raises_only_Exception :: "py_error + 'a \<Rightarrow> bool" where
  "raises_only_Exception r = (case r of Inl x \<Rightarrow> is_Exception x | Inr _ \<Rightarrow> True)"



lemma roe_Inl [simp]: "raises_only_Exception (Inl x) = is_Exception x"
  by (simp add: raises_only_Exception_def)



















subsection \<open>An export read back\<close>

text \<open>
  What a reader of the store sees of a record apart from its id: the timestamp, the url
  or description, and the payload as \<^verbatim>\<open>json.loads\<close> returns it. Two stores have the
  same records when they agree on that, category by category and in order.
\<close>

definition conversation_payloads :: "(sqlval \<times> json) table \<Rightarrow> (sqlval \<times> pyval) list" where
  "conversation_payloads t = map (\<lambda>r. (fst (snd r), json_loads (snd (snd r)))) (tbl_rows t)"

definition result_payloads ::
  "(sqlval \<times> sqlval \<times> json) table \<Rightarrow> (sqlval \<times> sqlval \<times> pyval) list" where
  "result_payloads t =
     map (\<lambda>r. (fst (snd r), fst (snd (snd r)), json_loads (snd (snd (snd r))))) (tbl_rows t)"

definition preference_payloads :: "(string \<times> json) list \<Rightarrow> (string \<times> pyval) list" where
  "preference_payloads ps = map (\<lambda>p. (fst p, json_loads (snd p))) ps"

definition same_records :: "db \<Rightarrow> db \<Rightarrow> bool" where
  "same_records s s' \<longleftrightarrow>
     conversation_payloads (conversations s') = conversation_payloads (conversations s) \<and>
     preference_payloads (preferences s') = preference_payloads (preferences s) \<and>
     result_payloads (scraping_results s') = result_payloads (scraping_results s) \<and>
     result_payloads (analysis_results s') = result_payloads (analysis_results s)"

lemma json_plain_py_of_sql: "json_plain (py_of_sql x)"
  by (cases x) simp_all

lemma bind_text_py_of_sql: "bind_text (py_of_sql x) = Inr x"
  by (cases x) simp_all

lemma json_plain_conversation_entry: "json_plain (conversation_entry r)"
  by (cases r) (simp add: json_plain_py_of_sql json_loads_plain)

lemma json_plain_scraping_entry: "json_plain (scraping_entry r)"
  by (cases r) (simp add: json_plain_py_of_sql json_loads_plain)

lemma json_plain_analysis_entry: "json_plain (analysis_entry r)"
  by (cases r) (simp add: json_plain_py_of_sql json_loads_plain)

lemma json_plain_list_map: "(\<And>x. json_plain (f x)) \<Longrightarrow> json_plain_list (map f xs)"
  by (induction xs) simp_all

lemma json_plain_items_prefs:
  "json_plain_items (map (\<lambda>p. (KStr (fst p), json_loads (snd p))) ps)"
  by (induction ps) (simp_all add: json_loads_plain)

lemma json_plain_export_data: "json_plain (export_data e s)"
  unfolding export_data_def
  by (simp add: json_plain_list_map json_plain_conversation_entry json_plain_scraping_entry
      json_plain_analysis_entry distinct_dict_of_items)
    (simp add: dict_of_items_def json_plain_items_fold json_plain_items_prefs)

lemma export_data_sections:
  "py_get (export_data e s) ''conversations'' d =
     Inr (PList (map conversation_entry (table_scan (tbl_rows (conversations s)))))"
  "py_get (export_data e s) ''preferences'' d =
     Inr (PDict (dict_of_items (map (\<lambda>p. (KStr (fst p), json_loads (snd p))) (preferences s))))"
  "py_get (export_data e s) ''scraping_results'' d =
     Inr (PList (map scraping_entry (table_scan (tbl_rows (scraping_results s)))))"
  "py_get (export_data e s) ''analysis_results'' d =
     Inr (PList (map analysis_entry (table_scan (tbl_rows (analysis_results s)))))"
  by (simp_all add: export_data_def)

lemma export_all_data_True:
  "export_all_data e s files p = Inr (files', True) \<longleftrightarrow>
     db_fault e = None \<and> fs_fault e = None \<and>
     (\<exists>doc. json_dumps (export_data e s) = Inr doc \<and> files' = files(p \<mapsto> JsonFile doc))"
  by (auto simp: export_all_data_def export_all_data_body_def connect_def
      split: option.splits sum.splits)

lemma exported_file_reads_back:
  assumes "export_all_data e s files p = Inr (files', True)"
    and "read_json_file e2 files' p = Inr doc"
  shows "doc = export_data e s"
proof -
  from assms(1) obtain j where j: "json_dumps (export_data e s) = Inr j"
    and f: "files' = files(p \<mapsto> JsonFile j)"
    by (auto simp: export_all_data_True)
  from json_roundtrip [OF json_plain_export_data, of e s] j
  have "json_loads j = export_data e s" by auto
  with assms(2) f show ?thesis
    by (auto simp: read_json_file_def split: option.splits)
qed

lemma import_conversations_reloads:
  "import_conversations (map conversation_entry rows) t = Inr t' \<Longrightarrow>
   \<exists>new. tbl_rows t' = tbl_rows t @ new \<and>
     map (\<lambda>r. (fst (snd r), json_loads (snd (snd r)))) new =
     map (\<lambda>r. (fst (snd r), json_loads (snd (snd r)))) rows"
proof (induction rows arbitrary: t)
  case Nil
  then show ?case by simp
next
  case (Cons row rows)
  obtain i ts d where row: "row = (i, ts, d)" by (cases row)
  from Cons.prems obtain j t1 where
    j: "json_dumps (json_loads d) = Inr j" and
    ins: "tbl_insert (ts, j) t = Inr t1" and
    rest: "import_conversations (map conversation_entry rows) t1 = Inr t'"
    by (auto simp: row try_then_Inr bind_text_py_of_sql)
  from tbl_insert_rows [OF ins] obtain i' where t1: "tbl_rows t1 = tbl_rows t @ [(i', ts, j)]"
    by blast
  from Cons.IH [OF rest] obtain new where
    new: "tbl_rows t' = tbl_rows t1 @ new"
    "map (\<lambda>r. (fst (snd r), json_loads (snd (snd r)))) new =
     map (\<lambda>r. (fst (snd r), json_loads (snd (snd r)))) rows" by blast
  from json_reload [OF j] have "json_loads j = json_loads d" .
  with new t1 show ?case
    by (intro exI [of _ "(i', ts, j) # new"]) (simp add: row)
qed

lemma import_results_reloads:
  assumes entry: "\<And>i ts u d. entry (i, ts, u, d) =
      PDict [(KStr ''id'', PInt i), (KStr ''timestamp'', py_of_sql ts),
             (KStr field, py_of_sql u), (KStr ''data'', json_loads d)]"
    and field: "field \<noteq> ''id''" "field \<noteq> ''timestamp''" "field \<noteq> ''data''"
  shows "import_results field (map entry rows) t = Inr t' \<Longrightarrow>
   \<exists>new. tbl_rows t' = tbl_rows t @ new \<and>
     map (\<lambda>r. (fst (snd r), fst (snd (snd r)), json_loads (snd (snd (snd r))))) new =
     map (\<lambda>r. (fst (snd r), fst (snd (snd r)), json_loads (snd (snd (snd r))))) rows"
proof (induction rows arbitrary: t)
  case Nil
  then show ?case by simp
next
  case (Cons row rows)
  obtain i ts u d where row: "row = (i, ts, u, d)" by (cases row)
  from Cons.prems field obtain j t1 where
    j: "json_dumps (json_loads d) = Inr j" and
    ins: "tbl_insert (ts, u, j) t = Inr t1" and
    rest: "import_results field (map entry rows) t1 = Inr t'"
    by (auto simp: row entry try_then_Inr bind_text_py_of_sql)
  from tbl_insert_rows [OF ins] obtain i' where t1: "tbl_rows t1 = tbl_rows t @ [(i', ts, u, j)]"
    by blast
  from Cons.IH [OF rest] obtain new where
    new: "tbl_rows t' = tbl_rows t1 @ new"
    "map (\<lambda>r. (fst (snd r), fst (snd (snd r)), json_loads (snd (snd (snd r))))) new =
     map (\<lambda>r. (fst (snd r), fst (snd (snd r)), json_loads (snd (snd (snd r))))) rows" by blast
  from json_reload [OF j] have "json_loads j = json_loads d" .
  with new t1 show ?case
    by (intro exI [of _ "(i', ts, u, j) # new"]) (simp add: row)
qed

lemma insert_or_replace_fresh:
  "k \<notin> fst ` set ps \<Longrightarrow> insert_or_replace k v ps = ps @ [(k, v)]"
  by (auto simp: insert_or_replace_def filter_id_conv)

lemma import_preferences_reloads:
  "import_preferences (map (\<lambda>p. (KStr (fst p), json_loads (snd p))) ps) acc = Inr ps' \<Longrightarrow>
   distinct (map fst ps) \<Longrightarrow> fst ` set ps \<inter> fst ` set acc = {} \<Longrightarrow>
   \<exists>new. ps' = acc @ new \<and>
     map (\<lambda>p. (fst p, json_loads (snd p))) new = map (\<lambda>p. (fst p, json_loads (snd p))) ps"
proof (induction ps arbitrary: acc)
  case Nil
  then show ?case by simp
next
  case (Cons p ps)
  from Cons.prems(1) obtain j where
    j: "json_dumps (json_loads (snd p)) = Inr j" and
    rest: "import_preferences (map (\<lambda>p. (KStr (fst p), json_loads (snd p))) ps)
             (insert_or_replace (fst p) j acc) = Inr ps'"
    by (auto simp: try_then_Inr)
  from Cons.prems(3) have "fst p \<notin> fst ` set acc" by auto
  then have ins: "insert_or_replace (fst p) j acc = acc @ [(fst p, j)]"
    by (rule insert_or_replace_fresh)
  from Cons.prems(2,3) have "distinct (map fst ps)"
    "fst ` set ps \<inter> fst ` set (acc @ [(fst p, j)]) = {}" by auto
  from Cons.IH [OF rest [unfolded ins] this] obtain new where
    new: "ps' = (acc @ [(fst p, j)]) @ new"
    "map (\<lambda>p. (fst p, json_loads (snd p))) new = map (\<lambda>p. (fst p, json_loads (snd p))) ps"
    by blast
  from json_reload [OF j] have "json_loads j = json_loads (snd p)" .
  with new show ?case
    by (intro exI [of _ "(fst p, j) # new"]) simp
qed

subsection \<open>Documents of the exported shape\<close>

text \<open>
  The shape \<^verbatim>\<open>export_all_data\<close> writes, as far as \<^verbatim>\<open>import_data\<close> depends on it:
  the document is an object; a section that is present is a list of records (an object
  for the preferences); every record has a \<^verbatim>\<open>data\<close> field and, for its timestamp and
  its url or description, a value that can be bound (a string, or null, a boolean, an
  integer of 64 bits). \<open>import_fits\<close>: the ids left in each table are enough for the
  records of the document.
\<close>

definition bindable :: "pyval \<Rightarrow> bool" where
  "bindable v = (case bind_text v of Inr _ \<Rightarrow> True | Inl _ \<Rightarrow> False)"

definition record_shaped :: "string list \<Rightarrow> pyval \<Rightarrow> bool" where
  "record_shaped names r =
     ((case py_getitem r ''data'' of Inr _ \<Rightarrow> True | Inl _ \<Rightarrow> False) \<and>
      list_all (\<lambda>f. case py_getitem r f of Inr v \<Rightarrow> bindable v | Inl _ \<Rightarrow> False) names)"

definition section_records :: "pyval \<Rightarrow> string \<Rightarrow> pyval list option" where
  "section_records doc name =
     (case py_get doc name (PList []) of Inr (PList rs) \<Rightarrow> Some rs | _ \<Rightarrow> None)"

definition export_shaped :: "pyval \<Rightarrow> bool" where
  "export_shaped doc =
     ((case section_records doc ''conversations'' of
         Some rs \<Rightarrow> list_all (record_shaped [''timestamp'']) rs | None \<Rightarrow> False) \<and>
      (case py_get doc ''preferences'' (PDict []) of Inr (PDict _) \<Rightarrow> True | _ \<Rightarrow> False) \<and>
      (case section_records doc ''scraping_results'' of
         Some rs \<Rightarrow> list_all (record_shaped [''timestamp'', ''url'']) rs | None \<Rightarrow> False) \<and>
      (case section_records doc ''analysis_results'' of
         Some rs \<Rightarrow> list_all (record_shaped [''timestamp'', ''description'']) rs | None \<Rightarrow> False))"

definition section_size :: "pyval \<Rightarrow> string \<Rightarrow> int" where
  "section_size doc name = (case section_records doc name of Some rs \<Rightarrow> int (length rs) | None \<Rightarrow> 0)"

definition import_fits :: "db \<Rightarrow> pyval \<Rightarrow> bool" where
  "import_fits s doc =
     (tbl_seq (conversations s) + section_size doc ''conversations'' \<le> MAX_ROWID \<and>
      tbl_seq (scraping_results s) + section_size doc ''scraping_results'' \<le> MAX_ROWID \<and>
      tbl_seq (analysis_results s) + section_size doc ''analysis_results'' \<le> MAX_ROWID)"

lemma json_plain_items_map_of:
  "json_plain_items kvs \<Longrightarrow> map_of kvs k = Some v \<Longrightarrow> json_plain v"
  by (induction kvs) (auto split: if_splits)

lemma json_plain_py_getitem: "json_plain r \<Longrightarrow> py_getitem r k = Inr v \<Longrightarrow> json_plain v"
  by (cases r) (auto split: option.splits dest: json_plain_items_map_of)

lemma json_plain_py_get:
  "json_plain doc \<Longrightarrow> json_plain d \<Longrightarrow> py_get doc k d = Inr v \<Longrightarrow> json_plain v"
  by (cases doc) (auto split: option.splits dest: json_plain_items_map_of)

lemma json_plain_dumps: "json_plain v \<Longrightarrow> \<exists>j. json_dumps v = Inr j \<and> json_loads j = v"
  by (rule json_roundtrip)

lemma tbl_insert_succeeds:
  "wf_table t \<Longrightarrow> tbl_seq t < MAX_ROWID \<Longrightarrow>
   \<exists>t'. tbl_insert r t = Inr t' \<and> wf_table t' \<and> tbl_seq t' = tbl_seq t + 1"
proof -
  assume wf: "wf_table t" and lt: "tbl_seq t < MAX_ROWID"
  then obtain t' where t': "tbl_insert r t = Inr t'" "tbl_seq t' = tbl_seq t + 1"
    by (auto simp: tbl_insert_wf_eq)
  with wf show ?thesis by (auto intro: wf_table_insert)
qed

lemma import_conversations_succeeds:
  "wf_table t \<Longrightarrow> json_plain_list cs \<Longrightarrow> list_all (record_shaped [''timestamp'']) cs \<Longrightarrow>
   tbl_seq t + int (length cs) \<le> MAX_ROWID \<Longrightarrow> \<exists>t'. import_conversations cs t = Inr t'"
proof (induction cs arbitrary: t)
  case Nil
  then show ?case by simp
next
  case (Cons c cs)
  from Cons.prems(3) obtain d ts ts' where
    d: "py_getitem c ''data'' = Inr d" and ts: "py_getitem c ''timestamp'' = Inr ts"
    and b: "bind_text ts = Inr ts'"
    by (auto simp: record_shaped_def bindable_def split: sum.splits)
  from Cons.prems(2) d have "json_plain d" by (auto dest: json_plain_py_getitem)
  then obtain j where j: "json_dumps d = Inr j" by (auto dest: json_plain_dumps)
  from Cons.prems(4) have "tbl_seq t < MAX_ROWID" by simp
  from tbl_insert_succeeds [OF Cons.prems(1) this, of "(ts', j)"] obtain t1 where
    t1: "tbl_insert (ts', j) t = Inr t1" "wf_table t1" "tbl_seq t1 = tbl_seq t + 1" by blast
  from Cons.prems have "json_plain_list cs" "list_all (record_shaped [''timestamp'']) cs"
    "tbl_seq t1 + int (length cs) \<le> MAX_ROWID" by (simp_all add: t1)
  from Cons.IH [OF t1(2) this] obtain t' where "import_conversations cs t1 = Inr t'" by blast
  then show ?case by (simp add: try_then_def d j ts b t1)
qed

lemma import_results_succeeds:
  "wf_table t \<Longrightarrow> json_plain_list rs \<Longrightarrow> list_all (record_shaped [''timestamp'', f]) rs \<Longrightarrow>
   tbl_seq t + int (length rs) \<le> MAX_ROWID \<Longrightarrow> \<exists>t'. import_results f rs t = Inr t'"
proof (induction rs arbitrary: t)
  case Nil
  then show ?case by simp
next
  case (Cons c cs)
  from Cons.prems(3) obtain d ts ts' u u' where
    d: "py_getitem c ''data'' = Inr d" and ts: "py_getitem c ''timestamp'' = Inr ts"
    and b: "bind_text ts = Inr ts'" and u: "py_getitem c f = Inr u" and bu: "bind_text u = Inr u'"
    by (auto simp: record_shaped_def bindable_def split: sum.splits)
  from Cons.prems(2) d have "json_plain d" by (auto dest: json_plain_py_getitem)
  then obtain j where j: "json_dumps d = Inr j" by (auto dest: json_plain_dumps)
  from Cons.prems(4) have "tbl_seq t < MAX_ROWID" by simp
  from tbl_insert_succeeds [OF Cons.prems(1) this, of "(ts', u', j)"] obtain t1 where
    t1: "tbl_insert (ts', u', j) t = Inr t1" "wf_table t1" "tbl_seq t1 = tbl_seq t + 1" by blast
  from Cons.prems have "json_plain_list cs" "list_all (record_shaped [''timestamp'', f]) cs"
    "tbl_seq t1 + int (length cs) \<le> MAX_ROWID" by (simp_all add: t1)
  from Cons.IH [OF t1(2) this] obtain t' where "import_results f cs t1 = Inr t'" by blast
  then show ?case by (simp add: try_then_def d j ts b u bu t1)
qed

lemma import_preferences_upserts:
  "json_plain_items items \<Longrightarrow> distinct (map fst items) \<Longrightarrow>
   \<exists>ps'. import_preferences items ps = Inr ps' \<and>
     (\<forall>k. map_option json_loads (map_of ps' k) =
        (case map_of items (KStr k) of
           Some v \<Rightarrow> Some v
         | None \<Rightarrow> map_option json_loads (map_of ps k)))"
proof (induction items arbitrary: ps)
  case Nil
  then show ?case by simp
next
  case (Cons kv items)
  from Cons.prems(1) obtain k0 where k0: "fst kv = KStr k0" and pv: "json_plain (snd kv)"
    and rest: "json_plain_items items"
    by (cases "fst kv") auto
  from json_plain_dumps [OF pv] obtain j where j: "json_dumps (snd kv) = Inr j"
    "json_loads j = snd kv" by blast
  from Cons.prems(2) have d: "distinct (map fst items)" and fresh: "KStr k0 \<notin> fst ` set items"
    by (auto simp: k0)
  from fresh have none: "map_of items (KStr k0) = None"
    by (simp add: map_of_eq_None_iff)
  from Cons.IH [OF rest d, of "insert_or_replace k0 j ps"] obtain ps' where
    ps': "import_preferences items (insert_or_replace k0 j ps) = Inr ps'"
    "\<forall>k. map_option json_loads (map_of ps' k) =
        (case map_of items (KStr k) of
           Some v \<Rightarrow> Some v
         | None \<Rightarrow> map_option json_loads (map_of (insert_or_replace k0 j ps) k))"
    by blast
  have run: "import_preferences (kv # items) ps = Inr ps'"
    by (simp add: try_then_def j k0 ps'(1))
  have "map_option json_loads (map_of ps' k) =
        (case map_of (kv # items) (KStr k) of
           Some v \<Rightarrow> Some v
         | None \<Rightarrow> map_option json_loads (map_of ps k))" for k
  proof (cases "k = k0")
    case True
    with ps'(2) none j(2) show ?thesis
      by (cases kv) (simp add: map_of_insert_or_replace k0 [symmetric])
  next
    case False
    with ps'(2) show ?thesis
      by (cases kv) (use k0 in \<open>auto simp: map_of_insert_or_replace split: option.splits\<close>)
  qed
  with run show ?case by blast
qed

lemma section_records_Some:
  "section_records doc name = Some rs \<longleftrightarrow> py_get doc name (PList []) = Inr (PList rs)"
  by (auto simp: section_records_def split: sum.splits pyval.splits)

section \<open>A store to look at\<close>

text \<open>
  One environment without faults and the store reached from a new database by one call
  each of \<^verbatim>\<open>save_conversation\<close>, \<^verbatim>\<open>save_preference\<close>, \<^verbatim>\<open>save_scraping_result\<close>
  and \<^verbatim>\<open>save_analysis_result\<close>. The analysis payload is the shape of
  \<^verbatim>\<open>get_data_summary\<close>, whose \<^verbatim>\<open>shape\<close> entry is a tuple. The second store
  is the first after the conversations were cleared and one more was saved.
\<close>

definition env0 :: env where
  "env0 = \<lparr>now = ''2026-11-04 12:00:00'', db_fault = None, fs_fault = None\<rparr>"

definition store1 :: db where
  "store1 =
     \<lparr>conversations =
        \<lparr>tbl_rows = [(1, SText ''2026-11-04 12:00:00'', JArr [JStr ''hi''])], tbl_seq = 1,
         tbl_issued = [1]\<rparr>,
      preferences = [(''theme'', JStr ''dark'')],
      scraping_results =
        \<lparr>tbl_rows = [(1, SText ''2026-11-04 12:00:00'', SText ''https://x.test'',
                      JObj [(''text'', JStr ''hello'')])],
         tbl_seq = 1, tbl_issued = [1]\<rparr>,
      analysis_results =
        \<lparr>tbl_rows = [(1, SText ''2026-11-04 12:00:00'', SText ''summary analysis'',
                      JObj [(''shape'', JArr [JInt 3, JInt 2])])],
         tbl_seq = 1, tbl_issued = [1]\<rparr>\<rparr>"

lemma store1_wf: "wf_db store1"
  by code_simp

definition store2 :: db where
  "store2 =
     \<lparr>conversations =
        \<lparr>tbl_rows = [(2, SText ''2026-11-04 12:00:00'', JArr [JStr ''again''])], tbl_seq = 2,
         tbl_issued = [1, 2]\<rparr>,
      preferences = [(''theme'', JStr ''dark'')],
      scraping_results = scraping_results store1,
      analysis_results = analysis_results store1\<rparr>"

lemma store1_reachable: "reachable store1"
proof -
  let ?a = "store1\<lparr>preferences := [], scraping_results := empty_table,
              analysis_results := empty_table\<rparr>"
  let ?b = "store1\<lparr>scraping_results := empty_table, analysis_results := empty_table\<rparr>"
  let ?c = "store1\<lparr>analysis_results := empty_table\<rparr>"
  have 1: "save_conversation env0 init_database (PList [PStr ''hi'']) = Inr (?a, True)"
    by code_simp
  have 2: "save_preference env0 ?a ''theme'' (PStr ''dark'') = Inr (?b, True)"
    by code_simp
  have 3: "save_scraping_result env0 ?b ''https://x.test''
             (PDict [(KStr ''text'', PStr ''hello'')]) = Inr (?c, True)"
    by code_simp
  have 4: "save_analysis_result env0 ?c ''summary analysis''
             (PDict [(KStr ''shape'', PTuple [PInt 3, PInt 2])]) = Inr (store1, True)"
    by code_simp
  have "reachable ?a" using r_init s_save_conversation [OF 1] by (rule r_step)
  then have "reachable ?b" using s_save_preference [OF 2] by (rule r_step)
  then have "reachable ?c" using s_save_scraping_result [OF 3] by (rule r_step)
  then show ?thesis using s_save_analysis_result [OF 4] by (rule r_step)
qed

lemma store2_reachable: "reachable store2"
proof -
  let ?a = "store1\<lparr>conversations := \<lparr>tbl_rows = [], tbl_seq = 1, tbl_issued = [1]\<rparr>\<rparr>"
  have 1: "clear_memory env0 store1 ''conversations'' = Inr (?a, True)"
    by code_simp
  have 2: "save_conversation env0 ?a (PList [PStr ''again'']) = Inr (store2, True)"
    by code_simp
  have "reachable ?a" using store1_reachable s_clear_memory [OF 1] by (rule r_step)
  then show ?thesis using s_save_conversation [OF 2] by (rule r_step)
qed

text \<open>
  A file to import: one conversation of the year 2020 and one preference. The third store
  is the first after the file was imported without \<^verbatim>\<open>replace_existing\<close>.
\<close>

definition imported1 :: json where
  "imported1 =
     JObj [
       (''conversations'',
          JArr [JObj [(''id'', JInt 7), (''timestamp'', JStr ''2020-01-01 00:00:00''),
                      (''data'', JArr [JStr ''old''])]]),
       (''preferences'', JObj [(''theme'', JStr ''light'')]),
       (''export_timestamp'', JStr ''2020-01-02 00:00:00'')]"

definition files0 :: fs where
  "files0 = (\<lambda>p. None)(''import_temp.json'' \<mapsto> JsonFile imported1)"

lemma files0_file: "files0 ''import_temp.json'' = Some (JsonFile imported1)"
  by (simp add: files0_def imported1_def)

definition store3 :: db where
  "store3 =
     store1\<lparr>conversations :=
        \<lparr>tbl_rows = [(1, SText ''2026-11-04 12:00:00'', JArr [JStr ''hi'']),
                     (2, SText ''2020-01-01 00:00:00'', JArr [JStr ''old''])],
         tbl_seq = 2, tbl_issued = [1, 2]\<rparr>,
       preferences := [(''theme'', JStr ''light'')]\<rparr>"

lemma import_example: "import_data env0 store1 files0 ''import_temp.json'' False = Inr (store3, True)"
  by code_simp




text \<open>
  The export of the first store, and the store left by importing it, with
  \<^verbatim>\<open>replace_existing\<close>, into the second store.
\<close>

definition exported1 :: json where
  "exported1 =
     JObj [
       (''conversations'',
          JArr [JObj [(''id'', JInt 1), (''timestamp'', JStr ''2026-11-04 12:00:00''),
                      (''data'', JArr [JStr ''hi''])]]),
       (''preferences'', JObj [(''theme'', JStr ''dark'')]),
       (''scraping_results'',
          JArr [JObj [(''id'', JInt 1), (''timestamp'', JStr ''2026-11-04 12:00:00''),
                      (''url'', JStr ''https://x.test''),
                      (''data'', JObj [(''text'', JStr ''hello'')])]]),
       (''analysis_results'',
          JArr [JObj [(''id'', JInt 1), (''timestamp'', JStr ''2026-11-04 12:00:00''),
                      (''description'', JStr ''summary analysis''),
                      (''data'', JObj [(''shape'', JArr [JInt 3, JInt 2])])]]),
       (''export_timestamp'', JStr ''2026-11-04 12:00:00'')]"

definition store5 :: db where
  "store5 =
     \<lparr>conversations =
        \<lparr>tbl_rows = [(3, SText ''2026-11-04 12:00:00'', JArr [JStr ''hi''])], tbl_seq = 3,
         tbl_issued = [1, 2, 3]\<rparr>,
      preferences = [(''theme'', JStr ''dark'')],
      scraping_results =
        \<lparr>tbl_rows = [(2, SText ''2026-11-04 12:00:00'', SText ''https://x.test'',
                      JObj [(''text'', JStr ''hello'')])],
         tbl_seq = 2, tbl_issued = [1, 2]\<rparr>,
      analysis_results =
        \<lparr>tbl_rows = [(2, SText ''2026-11-04 12:00:00'', SText ''summary analysis'',
                      JObj [(''shape'', JArr [JInt 3, JInt 2])])],
         tbl_seq = 2, tbl_issued = [1, 2]\<rparr>\<rparr>"

lemma export_example:
  "export_all_data env0 store1 files0 ''export.json'' =
     Inr (files0(''export.json'' \<mapsto> JsonFile exported1), True)"
proof -
  have "json_dumps (export_data env0 store1) = Inr exported1"
    by code_simp
  then show ?thesis
    by (simp add: export_all_data_def export_all_data_body_def connect_def env0_def)
qed

lemma reimport_example:
  "import_data env0 store2 (files0(''export.json'' \<mapsto> JsonFile exported1)) ''export.json'' True =
     Inr (store5, True)"
  by code_simp

section \<open>The claims\<close>

text \<open>
  Every store reached from a new database satisfies \<open>wf_db\<close> (lemma
  \<open>reachable_wf_db\<close>); a claim about every store is proved for every store that
  satisfies \<open>wf_db\<close>. A claim about what successful calls leave behind is proved from
  the calls having returned \<^verbatim>\<open>True\<close>.
\<close>




text \<open>
  C2 (amended). A successful \<^verbatim>\<open>save_conversation\<close>, \<^verbatim>\<open>save_scraping_result\<close> or
  \<^verbatim>\<open>save_analysis_result\<close> adds one row whose timestamp is the local time of the call,
  whatever the arguments are. A successful \<^verbatim>\<open>import_data\<close> adds one row for each
  imported record, and the row's timestamp is the one the record carries in the file.
  The preferences table has no timestamp column.
\<close>

theorem appends_stamp_the_time_of_the_call:
  "(save_conversation e s v = Inr (s', True) \<longrightarrow>
      (\<exists>i j. tbl_rows (conversations s') = tbl_rows (conversations s) @ [(i, SText (now e), j)])) \<and>
   (save_scraping_result e s u v = Inr (s', True) \<longrightarrow>
      (\<exists>i j. tbl_rows (scraping_results s') =
               tbl_rows (scraping_results s) @ [(i, SText (now e), SText u, j)])) \<and>
   (save_analysis_result e s u v = Inr (s', True) \<longrightarrow>
      (\<exists>i j. tbl_rows (analysis_results s') =
               tbl_rows (analysis_results s) @ [(i, SText (now e), SText u, j)])) \<and>
   (import_data e s files p r = Inr (s', True) \<longrightarrow>
      (\<exists>doc cs convs ss scrs as anas new_c new_s new_a.
          read_json_file e files p = Inr doc \<and>
          py_get doc ''conversations'' (PList []) = Inr cs \<and> py_iter cs = Inr convs \<and>
          py_get doc ''scraping_results'' (PList []) = Inr ss \<and> py_iter ss = Inr scrs \<and>
          py_get doc ''analysis_results'' (PList []) = Inr as \<and> py_iter as = Inr anas \<and>
          tbl_rows (conversations s') =
            (if r then [] else tbl_rows (conversations s)) @ new_c \<and> stamped new_c convs \<and>
          tbl_rows (scraping_results s') =
            (if r then [] else tbl_rows (scraping_results s)) @ new_s \<and> stamped new_s scrs \<and>
          tbl_rows (analysis_results s') =
            (if r then [] else tbl_rows (analysis_results s)) @ new_a \<and> stamped new_a anas))"
proof (intro conjI impI)
  assume "save_conversation e s v = Inr (s', True)"
  then show "\<exists>i j. tbl_rows (conversations s') =
      tbl_rows (conversations s) @ [(i, SText (now e), j)]"
    by (auto simp: save_conversation_True dest: tbl_insert_rows)
next
  assume "save_scraping_result e s u v = Inr (s', True)"
  then show "\<exists>i j. tbl_rows (scraping_results s') =
      tbl_rows (scraping_results s) @ [(i, SText (now e), SText u, j)]"
    by (auto simp: save_scraping_result_True dest: tbl_insert_rows)
next
  assume "save_analysis_result e s u v = Inr (s', True)"
  then show "\<exists>i j. tbl_rows (analysis_results s') =
      tbl_rows (analysis_results s) @ [(i, SText (now e), SText u, j)]"
    by (auto simp: save_analysis_result_True dest: tbl_insert_rows)
next
  let ?s0 = "if r then delete_all_tables s else s"
  assume "import_data e s files p r = Inr (s', True)"
  then have "import_data_body e s files p r = Inr (s', True)"
    by (simp add: import_data_True)
  then obtain doc cs convs ct pt ss scrs st as anas at where
    f: "read_json_file e files p = Inr doc" and
    g: "py_get doc ''conversations'' (PList []) = Inr cs" "py_iter cs = Inr convs"
       "py_get doc ''scraping_results'' (PList []) = Inr ss" "py_iter ss = Inr scrs"
       "py_get doc ''analysis_results'' (PList []) = Inr as" "py_iter as = Inr anas" and
    c: "import_conversations convs (conversations ?s0) = Inr ct" and
    sc: "import_results ''url'' scrs (scraping_results ?s0) = Inr st" and
    an: "import_results ''description'' anas (analysis_results ?s0) = Inr at" and
    s': "s' = \<lparr>conversations = ct, preferences = pt, scraping_results = st,
           analysis_results = at\<rparr>"
    unfolding import_data_body_Inr by blast
  have rows0: "tbl_rows (conversations ?s0) = (if r then [] else tbl_rows (conversations s))"
    "tbl_rows (scraping_results ?s0) = (if r then [] else tbl_rows (scraping_results s))"
    "tbl_rows (analysis_results ?s0) = (if r then [] else tbl_rows (analysis_results s))"
    by (simp_all add: delete_all_tables_def tbl_delete_def)
  from import_conversations_stamped [OF c] obtain new_c where
    nc: "tbl_rows ct = tbl_rows (conversations ?s0) @ new_c" "stamped new_c convs" by blast
  from import_results_stamped [OF sc] obtain new_s where
    ns: "tbl_rows st = tbl_rows (scraping_results ?s0) @ new_s" "stamped new_s scrs" by blast
  from import_results_stamped [OF an] obtain new_a where
    na: "tbl_rows at = tbl_rows (analysis_results ?s0) @ new_a" "stamped new_a anas" by blast
  show "\<exists>doc cs convs ss scrs as anas new_c new_s new_a.
          read_json_file e files p = Inr doc \<and>
          py_get doc ''conversations'' (PList []) = Inr cs \<and> py_iter cs = Inr convs \<and>
          py_get doc ''scraping_results'' (PList []) = Inr ss \<and> py_iter ss = Inr scrs \<and>
          py_get doc ''analysis_results'' (PList []) = Inr as \<and> py_iter as = Inr anas \<and>
          tbl_rows (conversations s') =
            (if r then [] else tbl_rows (conversations s)) @ new_c \<and> stamped new_c convs \<and>
          tbl_rows (scraping_results s') =
            (if r then [] else tbl_rows (scraping_results s)) @ new_s \<and> stamped new_s scrs \<and>
          tbl_rows (analysis_results s') =
            (if r then [] else tbl_rows (analysis_results s)) @ new_a \<and> stamped new_a anas"
    using f g nc ns na unfolding s' rows0 by auto
qed

theorem appends_stamp_witness:
  "save_conversation env0 store1 (PList [PStr ''x'']) =
     Inr (store1\<lparr>conversations :=
        \<lparr>tbl_rows = [(1, SText ''2026-11-04 12:00:00'', JArr [JStr ''hi'']),
                     (2, SText ''2026-11-04 12:00:00'', JArr [JStr ''x''])],
         tbl_seq = 2, tbl_issued = [1, 2]\<rparr>\<rparr>, True) \<and>
   (\<exists>i j. tbl_rows (conversations (store1\<lparr>conversations :=
        \<lparr>tbl_rows = [(1, SText ''2026-11-04 12:00:00'', JArr [JStr ''hi'']),
                     (2, SText ''2026-11-04 12:00:00'', JArr [JStr ''x''])],
         tbl_seq = 2, tbl_issued = [1, 2]\<rparr>\<rparr>)) =
      tbl_rows (conversations store1) @ [(i, SText (now env0), j)])"
proof -
  let ?s' = "store1\<lparr>conversations :=
        \<lparr>tbl_rows = [(1, SText ''2026-11-04 12:00:00'', JArr [JStr ''hi'']),
                     (2, SText ''2026-11-04 12:00:00'', JArr [JStr ''x''])],
         tbl_seq = 2, tbl_issued = [1, 2]\<rparr>\<rparr>"
  have a: "save_conversation env0 store1 (PList [PStr ''x'']) = Inr (?s', True)"
    by code_simp
  from appends_stamp_the_time_of_the_call [of env0 store1 "PList [PStr ''x'']" ?s']
  have "save_conversation env0 store1 (PList [PStr ''x'']) = Inr (?s', True) \<longrightarrow>
      (\<exists>i j. tbl_rows (conversations ?s') = tbl_rows (conversations store1) @ [(i, SText (now env0), j)])"
    by blast
  with a show ?thesis by blast
qed

text \<open>
  C2 as stated fails for the rows an import inserts: the imported conversation keeps the
  timestamp of the file, which is not the time of the call.
\<close>

theorem import_keeps_the_file_timestamp_counterexample:
  "import_data env0 store1 files0 ''import_temp.json'' False = Inr (store3, True) \<and>
   tbl_rows (conversations store3) =
     tbl_rows (conversations store1) @ [(2, SText ''2020-01-01 00:00:00'', JArr [JStr ''old''])] \<and>
   now env0 = ''2026-11-04 12:00:00''"
  by code_simp

text \<open>
  C3. When \<^verbatim>\<open>export_all_data\<close> has written a store that satisfies the invariant to a
  file, and \<^verbatim>\<open>import_data\<close> of that file with \<^verbatim>\<open>replace_existing=True\<close> has
  succeeded on any store (the same one, a cleared one, another one), the store it leaves
  has the same records as the exported one: per category the same number of records,
  with the same timestamps, urls, descriptions, preference keys and payloads as loaded;
  the ids may differ.
\<close>

theorem export_then_replacing_import:
  assumes wf: "wf_db s"
    and exported: "export_all_data e1 s files file_path = Inr (files', True)"
    and imported: "import_data e2 s2 files' file_path True = Inr (s', True)"
  shows "same_records s s' \<and>
         length (tbl_rows (conversations s')) = length (tbl_rows (conversations s)) \<and>
         length (preferences s') = length (preferences s) \<and>
         length (tbl_rows (scraping_results s')) = length (tbl_rows (scraping_results s)) \<and>
         length (tbl_rows (analysis_results s')) = length (tbl_rows (analysis_results s))"
proof -
  let ?s0 = "delete_all_tables s2"
  from imported have "import_data_body e2 s2 files' file_path True = Inr (s', True)"
    by (simp add: import_data_True)
  then obtain doc cs convs ct ps items pt ss scrs st as anas at where
    f: "read_json_file e2 files' file_path = Inr doc" and
    g: "py_get doc ''conversations'' (PList []) = Inr cs" "py_iter cs = Inr convs"
       "py_get doc ''preferences'' (PDict []) = Inr ps" "py_items ps = Inr items"
       "py_get doc ''scraping_results'' (PList []) = Inr ss" "py_iter ss = Inr scrs"
       "py_get doc ''analysis_results'' (PList []) = Inr as" "py_iter as = Inr anas" and
    c: "import_conversations convs (conversations ?s0) = Inr ct" and
    p: "import_preferences items (preferences ?s0) = Inr pt" and
    sc: "import_results ''url'' scrs (scraping_results ?s0) = Inr st" and
    an: "import_results ''description'' anas (analysis_results ?s0) = Inr at" and
    s': "s' = \<lparr>conversations = ct, preferences = pt, scraping_results = st,
           analysis_results = at\<rparr>"
    unfolding import_data_body_Inr by auto
  have doc: "doc = export_data e1 s" using exported f by (rule exported_file_reads_back)
  from wf have scan: "table_scan (tbl_rows (conversations s)) = tbl_rows (conversations s)"
    "table_scan (tbl_rows (scraping_results s)) = tbl_rows (scraping_results s)"
    "table_scan (tbl_rows (analysis_results s)) = tbl_rows (analysis_results s)"
    and keys: "distinct (map fst (preferences s))"
    by (simp_all add: wf_db_def table_scan_wf)
  have dk: "distinct (map fst (map (\<lambda>p. (KStr (fst p), json_loads (snd p))) (preferences s)))"
    using keys by (simp add: distinct_map comp_def inj_on_def)
  from g have convs: "convs = map conversation_entry (tbl_rows (conversations s))"
    and scrs: "scrs = map scraping_entry (tbl_rows (scraping_results s))"
    and anas: "anas = map analysis_entry (tbl_rows (analysis_results s))"
    and items: "items = map (\<lambda>p. (KStr (fst p), json_loads (snd p))) (preferences s)"
    unfolding doc export_data_sections scan
    by (auto simp: dict_of_items_distinct [OF dk])
  have empty: "tbl_rows (conversations ?s0) = []" "preferences ?s0 = []"
    "tbl_rows (scraping_results ?s0) = []" "tbl_rows (analysis_results ?s0) = []"
    by (simp_all add: delete_all_tables_def tbl_delete_def)
  from import_conversations_reloads [OF c [unfolded convs]]
  have 1: "conversation_payloads ct = conversation_payloads (conversations s)"
    by (auto simp: conversation_payloads_def empty)
  from import_results_reloads [of scraping_entry "''url''", OF _ _ _ _ sc [unfolded scrs]]
  have 2: "result_payloads st = result_payloads (scraping_results s)"
    by (auto simp: result_payloads_def empty)
  from import_results_reloads [of analysis_entry "''description''", OF _ _ _ _ an [unfolded anas]]
  have 3: "result_payloads at = result_payloads (analysis_results s)"
    by (auto simp: result_payloads_def empty)
  from import_preferences_reloads [OF p [unfolded items empty] keys]
  have 4: "preference_payloads pt = preference_payloads (preferences s)"
    by (auto simp: preference_payloads_def)
  have same: "same_records s s'"
    unfolding same_records_def s' using 1 2 3 4 by simp
  from 1 have "length (conversation_payloads ct) = length (conversation_payloads (conversations s))"
    by simp
  then have l1: "length (tbl_rows ct) = length (tbl_rows (conversations s))"
    by (simp add: conversation_payloads_def)
  from 2 have "length (result_payloads st) = length (result_payloads (scraping_results s))"
    by simp
  then have l2: "length (tbl_rows st) = length (tbl_rows (scraping_results s))"
    by (simp add: result_payloads_def)
  from 3 have "length (result_payloads at) = length (result_payloads (analysis_results s))"
    by simp
  then have l3: "length (tbl_rows at) = length (tbl_rows (analysis_results s))"
    by (simp add: result_payloads_def)
  from 4 have "length (preference_payloads pt) = length (preference_payloads (preferences s))"
    by simp
  then have l4: "length pt = length (preferences s)"
    by (simp add: preference_payloads_def)
  from same l1 l2 l3 l4 show ?thesis by (simp add: s')
qed

theorem export_import_witness:
  "wf_db store1 \<and>
   export_all_data env0 store1 files0 ''export.json'' =
     Inr (files0(''export.json'' \<mapsto> JsonFile exported1), True) \<and>
   import_data env0 store2 (files0(''export.json'' \<mapsto> JsonFile exported1)) ''export.json'' True =
     Inr (store5, True) \<and>
   same_records store1 store5 \<and>
   length (tbl_rows (conversations store5)) = length (tbl_rows (conversations store1))"
  using export_then_replacing_import [OF store1_wf export_example reimport_example]
    store1_wf export_example reimport_example
  by simp

text \<open>
  C4 (amended). With the database at hand, \<^verbatim>\<open>clear_memory\<close> clears by name the
  categories \<^verbatim>\<open>conversations\<close>, \<^verbatim>\<open>scraping\<close> and \<^verbatim>\<open>analysis\<close>, each time
  deleting every record of the category and leaving the three other categories as they
  were, and \<^verbatim>\<open>all\<close> empties the four of them. There is no clear scoped to the
  preferences: under the name \<^verbatim>\<open>preferences\<close> the call reports failure and changes
  nothing.
\<close>

theorem clear_memory_by_category:
  assumes ok: "db_fault e = None"
  shows "(\<exists>s'. clear_memory e s ''conversations'' = Inr (s', True) \<and>
            tbl_rows (conversations s') = [] \<and> preferences s' = preferences s \<and>
            scraping_results s' = scraping_results s \<and>
            analysis_results s' = analysis_results s) \<and>
         (\<exists>s'. clear_memory e s ''scraping'' = Inr (s', True) \<and>
            tbl_rows (scraping_results s') = [] \<and> preferences s' = preferences s \<and>
            conversations s' = conversations s \<and>
            analysis_results s' = analysis_results s) \<and>
         (\<exists>s'. clear_memory e s ''analysis'' = Inr (s', True) \<and>
            tbl_rows (analysis_results s') = [] \<and> preferences s' = preferences s \<and>
            conversations s' = conversations s \<and>
            scraping_results s' = scraping_results s) \<and>
         (\<exists>s'. clear_memory e s ''all'' = Inr (s', True) \<and>
            tbl_rows (conversations s') = [] \<and> preferences s' = [] \<and>
            tbl_rows (scraping_results s') = [] \<and> tbl_rows (analysis_results s') = []) \<and>
         clear_memory e s ''preferences'' = Inr (s, False)"
proof -
  have c: "clear_memory e s ''conversations'' =
      Inr (s\<lparr>conversations := tbl_delete (conversations s)\<rparr>, True)"
    using ok by (simp add: clear_memory_def clear_conversation_data_Inr)
  have sc: "clear_memory e s ''scraping'' =
      Inr (s\<lparr>scraping_results := tbl_delete (scraping_results s)\<rparr>, True)"
    using ok by (simp add: clear_memory_def clear_scraping_data_Inr)
  have an: "clear_memory e s ''analysis'' =
      Inr (s\<lparr>analysis_results := tbl_delete (analysis_results s)\<rparr>, True)"
    using ok by (simp add: clear_memory_def clear_analysis_data_Inr)
  have al: "clear_memory e s ''all'' = Inr (delete_all_tables s, True)"
    using ok by (simp add: clear_memory_def clear_all_data_Inr)
  have pr: "clear_memory e s ''preferences'' = Inr (s, False)"
    by (simp add: clear_memory_def)
  show ?thesis
    unfolding c sc an al pr by (simp add: tbl_delete_def delete_all_tables_def)
qed

theorem clear_memory_witness:
  "db_fault env0 = None \<and>
   clear_memory env0 store1 ''conversations'' =
     Inr (store1\<lparr>conversations := \<lparr>tbl_rows = [], tbl_seq = 1, tbl_issued = [1]\<rparr>\<rparr>, True) \<and>
   clear_memory env0 store1 ''preferences'' = Inr (store1, False)"
proof -
  have b: "db_fault env0 = None" by (simp add: env0_def)
  have c: "clear_memory env0 store1 ''conversations'' =
     Inr (store1\<lparr>conversations := \<lparr>tbl_rows = [], tbl_seq = 1, tbl_issued = [1]\<rparr>\<rparr>, True)"
    by code_simp
  show ?thesis using clear_memory_by_category [OF b, of store1] b c by simp
qed

text \<open>
  C4 as stated fails at the category \<^verbatim>\<open>preferences\<close>: the store has no operation for
  it, and the preference is still there after the call.
\<close>

theorem clear_preferences_counterexample:
  "clear_memory env0 store1 ''preferences'' = Inr (store1, False) \<and>
   preferences store1 = [(''theme'', JStr ''dark'')] \<and>
   load_preference env0 store1 ''theme'' PNone = Inr (PStr ''dark'')"
  by code_simp



text \<open>The hypothesis is needed: an interrupt is no \<^verbatim>\<open>Exception\<close> and
  \<^verbatim>\<open>except Exception\<close> lets it through.\<close>

lemma keyboard_interrupt_propagates:
  "save_conversation (env0\<lparr>db_fault := Some KeyboardInterrupt\<rparr>) s v = Inl KeyboardInterrupt"
  by (simp add: save_conversation_def save_conversation_body_def connect_def try_then_def
      except_Exception_def)







text \<open>
  C8. On a store that satisfies the invariant and holds one conversation, with the
  database and the file at hand and ids left in the tables, importing without
  \<^verbatim>\<open>replace_existing\<close> a document of the exported shape whose conversations section
  holds one record succeeds and leaves two conversations, the existing one first and the
  imported one, with its timestamp and its payload, after it. A preference of the document
  is what \<^verbatim>\<open>load_preference\<close> returns for its key afterwards, whatever the store held
  for it; a key the document does not have keeps what the store held.
\<close>

theorem merge_import_appends_and_upserts:
  assumes wf: "wf_db s"
    and one: "tbl_rows (conversations s) = [r0]"
    and stored: "files file_path = Some (JsonFile j)"
    and shaped: "export_shaped (json_loads j)"
    and conv: "py_get (json_loads j) ''conversations'' (PList []) = Inr (PList [c])"
    and db_ok: "db_fault e = None" and fs_ok: "fs_fault e = None"
    and fits: "import_fits s (json_loads j)"
  shows "\<exists>s' i ts d.
           import_data e s files file_path False = Inr (s', True) \<and>
           tbl_rows (conversations s') = [r0, (i, ts, d)] \<and>
           py_getitem c ''data'' = Inr (json_loads d) \<and>
           (\<exists>v. py_getitem c ''timestamp'' = Inr v \<and> bind_text v = Inr ts) \<and>
           (\<forall>items k dflt.
              py_get (json_loads j) ''preferences'' (PDict []) = Inr (PDict items) \<longrightarrow>
              load_preference e s' k dflt =
                (case map_of items (KStr k) of
                   Some v \<Rightarrow> Inr v
                 | None \<Rightarrow> load_preference e s k dflt))"
proof -
  let ?doc = "json_loads j"
  have plain: "json_plain ?doc" by (rule json_loads_plain)
  have rd: "read_json_file e files file_path = Inr ?doc"
    by (simp add: read_json_file_def fs_ok stored)
  from shaped obtain scrs anas items where
    sh_c: "list_all (record_shaped [''timestamp'']) [c]" and
    pr: "py_get ?doc ''preferences'' (PDict []) = Inr (PDict items)" and
    sc: "py_get ?doc ''scraping_results'' (PList []) = Inr (PList scrs)"
        "list_all (record_shaped [''timestamp'', ''url'']) scrs" and
    an: "py_get ?doc ''analysis_results'' (PList []) = Inr (PList anas)"
        "list_all (record_shaped [''timestamp'', ''description'']) anas"
    using conv
    by (auto simp: export_shaped_def section_records_Some
        split: option.splits sum.splits pyval.splits)
  have pc: "json_plain_list [c]"
    using json_plain_py_get [OF plain _ conv] by simp
  have ps: "json_plain_list scrs"
    using json_plain_py_get [OF plain _ sc(1)] by simp
  have pa: "json_plain_list anas"
    using json_plain_py_get [OF plain _ an(1)] by simp
  have pi: "json_plain_items items" "distinct (map fst items)"
    using json_plain_py_get [OF plain _ pr] by simp_all
  from fits have room:
    "tbl_seq (conversations s) + int (length [c]) \<le> MAX_ROWID"
    "tbl_seq (scraping_results s) + int (length scrs) \<le> MAX_ROWID"
    "tbl_seq (analysis_results s) + int (length anas) \<le> MAX_ROWID"
    using conv sc(1) an(1)
    by (simp_all add: import_fits_def section_size_def section_records_def)
  from wf have wft: "wf_table (conversations s)" "wf_table (scraping_results s)"
    "wf_table (analysis_results s)" by (simp_all add: wf_db_def)
  from import_conversations_succeeds [OF wft(1) pc sh_c room(1)] obtain ct where
    ct: "import_conversations [c] (conversations s) = Inr ct" by blast
  from import_results_succeeds [OF wft(2) ps sc(2) room(2)] obtain st where
    st: "import_results ''url'' scrs (scraping_results s) = Inr st" by blast
  from import_results_succeeds [OF wft(3) pa an(2) room(3)] obtain at where
    at: "import_results ''description'' anas (analysis_results s) = Inr at" by blast
  from import_preferences_upserts [OF pi, of "preferences s"] obtain pt where
    pt: "import_preferences items (preferences s) = Inr pt" and
    up: "\<And>k. map_option json_loads (map_of pt k) =
        (case map_of items (KStr k) of
           Some v \<Rightarrow> Some v
         | None \<Rightarrow> map_option json_loads (map_of (preferences s) k))"
    by blast
  let ?s' = "\<lparr>conversations = ct, preferences = pt, scraping_results = st,
           analysis_results = at\<rparr>"
  have run: "import_data e s files file_path False = Inr (?s', True)"
    unfolding import_data_True import_data_body_Inr
    using rd db_ok conv pr sc(1) an(1) ct st at pt by auto
  from ct obtain dv d tsv ts where
    dv: "py_getitem c ''data'' = Inr dv" and d: "json_dumps dv = Inr d" and
    tsv: "py_getitem c ''timestamp'' = Inr tsv" and ts: "bind_text tsv = Inr ts" and
    ins: "tbl_insert (ts, d) (conversations s) = Inr ct"
    by (auto simp: try_then_Inr)
  from tbl_insert_rows [OF ins] one obtain i where rows: "tbl_rows ct = [r0, (i, ts, d)]"
    by auto
  from pc dv have "json_plain dv" by (auto dest: json_plain_py_getitem)
  from json_plain_dumps [OF this] d have reload: "json_loads d = dv" by auto
  have prefs: "load_preference e ?s' k dflt =
      (case map_of items (KStr k) of
         Some v \<Rightarrow> Inr v
       | None \<Rightarrow> load_preference e s k dflt)" for k dflt
    using up [of k]
    by (auto simp: load_preference_ok [OF db_ok] split: option.splits)
  have "\<forall>items' k dflt.
      py_get ?doc ''preferences'' (PDict []) = Inr (PDict items') \<longrightarrow>
      load_preference e ?s' k dflt =
        (case map_of items' (KStr k) of
           Some v \<Rightarrow> Inr v
         | None \<Rightarrow> load_preference e s k dflt)"
    using prefs pr by simp
  with run rows dv reload tsv ts show ?thesis
    by (intro exI [of _ ?s'] exI [of _ i] exI [of _ ts] exI [of _ d]) auto
qed

theorem merge_import_witness:
  "wf_db store1 \<and>
   tbl_rows (conversations store1) = [(1, SText ''2026-11-04 12:00:00'', JArr [JStr ''hi''])] \<and>
   files0 ''import_temp.json'' = Some (JsonFile imported1) \<and>
   export_shaped (json_loads imported1) \<and> import_fits store1 (json_loads imported1) \<and>
   import_data env0 store1 files0 ''import_temp.json'' False = Inr (store3, True) \<and>
   tbl_rows (conversations store3) =
     [(1, SText ''2026-11-04 12:00:00'', JArr [JStr ''hi'']),
      (2, SText ''2020-01-01 00:00:00'', JArr [JStr ''old''])] \<and>
   load_preference env0 store1 ''theme'' PNone = Inr (PStr ''dark'') \<and>
   load_preference env0 store3 ''theme'' PNone = Inr (PStr ''light'')"
proof -
  let ?c = "PDict [(KStr ''id'', PInt 7), (KStr ''timestamp'', PStr ''2020-01-01 00:00:00''),
                   (KStr ''data'', PList [PStr ''old''])]"
  have one: "tbl_rows (conversations store1) =
      [(1, SText ''2026-11-04 12:00:00'', JArr [JStr ''hi''])]"
    by (simp add: store1_def)
  have sh: "export_shaped (json_loads imported1)" by code_simp
  have fit: "import_fits store1 (json_loads imported1)" by code_simp
  have conv: "py_get (json_loads imported1) ''conversations'' (PList []) = Inr (PList [?c])"
    by code_simp
  have pr: "py_get (json_loads imported1) ''preferences'' (PDict []) =
      Inr (PDict [(KStr ''theme'', PStr ''light'')])"
    by code_simp
  have ok: "db_fault env0 = None" "fs_fault env0 = None" by (simp_all add: env0_def)
  from merge_import_appends_and_upserts [where files = files0 and file_path = "''import_temp.json''",
      OF store1_wf one files0_file sh conv ok fit]
  obtain s' i ts d where
    run: "import_data env0 store1 files0 ''import_temp.json'' False = Inr (s', True)" and
    rows: "tbl_rows (conversations s') =
      [(1, SText ''2026-11-04 12:00:00'', JArr [JStr ''hi'']), (i, ts, d)]" and
    prefs: "\<forall>items k dflt.
      py_get (json_loads imported1) ''preferences'' (PDict []) = Inr (PDict items) \<longrightarrow>
      load_preference env0 s' k dflt =
        (case map_of items (KStr k) of
           Some v \<Rightarrow> Inr v
         | None \<Rightarrow> load_preference env0 store1 k dflt)"
    by blast
  from run have s': "s' = store3" by (simp add: import_example)
  from prefs pr have "load_preference env0 s' ''theme'' PNone = Inr (PStr ''light'')"
    by simp
  moreover have "load_preference env0 store1 ''theme'' PNone = Inr (PStr ''dark'')"
    by code_simp
  moreover have "tbl_rows (conversations store3) =
     [(1, SText ''2026-11-04 12:00:00'', JArr [JStr ''hi'']),
      (2, SText ''2020-01-01 00:00:00'', JArr [JStr ''old''])]"
    by (simp add: store3_def)
  ultimately show ?thesis
    using store1_wf one files0_file sh fit import_example s' by simp
qed

text \<open>
  C9. In every store reached from a new database by calls of the saving, clearing and
  importing operations, each of the three tables with automatic ids keeps the discipline
  above: ids strictly increasing in insertion order, no id given twice, the next id
  above every id given so far, also after a clear or a replacing import has deleted rows.
  And whatever call comes next, the ids given out so far stay given out.
\<close>

theorem ids_increase_and_are_never_reused:
  assumes "reachable s"
  shows "id_discipline (conversations s) \<and> id_discipline (scraping_results s) \<and>
         id_discipline (analysis_results s) \<and>
         (\<forall>s'. step s s' \<longrightarrow> log_extends s s')"
proof -
  from assms have "wf_db s" by (rule reachable_wf_db)
  then have "id_discipline (conversations s)" "id_discipline (scraping_results s)"
    "id_discipline (analysis_results s)"
    by (simp_all add: wf_db_def wf_table_id_discipline)
  then show ?thesis by (simp add: log_extends_step)
qed

theorem ids_never_reused_witness:
  "reachable store2 \<and> id_discipline (conversations store2) \<and>
   tbl_issued (conversations store2) = [1, 2] \<and>
   map fst (tbl_rows (conversations store2)) = [2]"
  using ids_increase_and_are_never_reused [OF store2_reachable] store2_reachable
  by (simp add: store2_def)




end
